theory Spec2Isabelle
  imports
    Complex_Main
    "HOL-Library.Word"
    "HOL-Library.Signed_Division"
    "HOL-Library.AList"
    "HOL-Library.Multiset"
begin

section \<open>CentralPixelBenchmark.go: data model\<close>

text \<open>
  Go's \<^verbatim>\<open>int\<close> is taken at 64 bits (amd64): \<open>+\<close> and \<open>*\<close> wrap around, \<^verbatim>\<open>/\<close>
  truncates towards zero and panics on a zero divisor. \<^verbatim>\<open>[3]int\<close> is a value type,
  so the \<^verbatim>\<open>RGB\<close> of a \<^verbatim>\<open>range\<close> loop is a copy of the stored array.
\<close>

type_synonym goint = "64 word"
type_synonym RGB = "goint \<times> goint \<times> goint"

text \<open>
  Every \<^verbatim>\<open>os.Exit(-1)\<close> of the source and every run-time panic it can raise is a
  constructor; a function that can reach one returns \<open>error + result\<close>.
\<close>

datatype error =
    PanicDivideByZero
  | PanicIndexOutOfRange
  | ExitParseFloat
  | ExitNProbabilities
  | ExitZeroClusters
  | ExitLineNot38
  | ExitNot37Predictions
  | ExitLengthsMismatch

text \<open>
  A Go map that the program ranges over or measures with \<^verbatim>\<open>len\<close> is an association
  list with one pair per key; the position of a pair is the place where \<^verbatim>\<open>range\<close>
  happens to visit it. \<^verbatim>\<open>m[k] = v\<close> is \<open>AList.update k v m\<close>, \<^verbatim>\<open>m[k]\<close> with the
  \<^verbatim>\<open>ok\<close> flag is \<open>map_of m k\<close>. A map that is only looked up is a partial function.
\<close>

type_synonym ('k, 'v) gomap = "('k \<times> 'v) list"

text \<open>
  A \<^verbatim>\<open>[]float64\<close> is a reference to a backing array. The arrays live in a heap, a
  list indexed by address; \<^verbatim>\<open>make\<close> appends a new array. The \<^verbatim>\<open>float64\<close> type is
  a type variable with \<open>0\<close>, \<open>+\<close> and \<open>/\<close> and no law assumed for them.
\<close>

type_synonym addr = nat
type_synonym 'f heap = "'f list list"

section \<open>ColorHasher: the two inlined key computations\<close>

definition quo :: "goint \<Rightarrow> goint \<Rightarrow> error + goint" where
  \<comment> \<open>Go's \<^verbatim>\<open>a / b\<close> on \<^verbatim>\<open>int\<close>\<close>
  "quo a b = (if b = 0 then Inl PanicDivideByZero else Inr (word_of_int (sint a sdiv sint b)))"

definition avIntensity :: "RGB \<Rightarrow> goint" where
  \<comment> \<open>\<^verbatim>\<open>int((RGB[0] + RGB[1] + RGB[2]) / 3)\<close>\<close>
  "avIntensity rgb = (case rgb of (r, g, b) \<Rightarrow> word_of_int (sint (r + g + b) sdiv 3))"

definition key :: "RGB \<Rightarrow> goint \<Rightarrow> error + goint" where
  \<comment> \<open>\<^verbatim>\<open>GetGalaxyClusters\<close>, lines 175 to 179\<close>
  "key rgb hashFactor = (case rgb of (r, g, b) \<Rightarrow>
     (case quo r (avIntensity rgb) of Inl e \<Rightarrow> Inl e | Inr r' \<Rightarrow>
     (case quo g (avIntensity rgb) of Inl e \<Rightarrow> Inl e | Inr g' \<Rightarrow>
     (case quo b (avIntensity rgb) of Inl e \<Rightarrow> Inl e | Inr b' \<Rightarrow>
        Inr (r' * hashFactor * hashFactor + g' * hashFactor + b')))))"

definition rgbCluster :: "RGB \<Rightarrow> goint \<Rightarrow> error + goint" where
  \<comment> \<open>\<^verbatim>\<open>CreateCentralPixelBenchmark\<close>, lines 234 and 235\<close>
  "rgbCluster rgb hashFactor = (case rgb of (r, g, b) \<Rightarrow>
     (case quo r (avIntensity rgb) of Inl e \<Rightarrow> Inl e | Inr r' \<Rightarrow>
     (case quo g (avIntensity rgb) of Inl e \<Rightarrow> Inl e | Inr g' \<Rightarrow>
     (case quo b (avIntensity rgb) of Inl e \<Rightarrow> Inl e | Inr b' \<Rightarrow>
        Inr (hashFactor * hashFactor * r' + hashFactor * g' + b')))))"

section \<open>ClusterBuilder\<close>

fun GetGalaxyClusters_range ::
  "(string, RGB) gomap \<Rightarrow> goint \<Rightarrow> (goint, string list) gomap
     \<Rightarrow> error + (goint, string list) gomap" where
  "GetGalaxyClusters_range [] hashFactor galaxyClusters = Inr galaxyClusters"
| "GetGalaxyClusters_range ((galaxyId, rgb) # rest) hashFactor galaxyClusters =
     (case key rgb hashFactor of
        Inl e \<Rightarrow> Inl e
      | Inr k \<Rightarrow>
          (case map_of galaxyClusters k of
             Some members \<Rightarrow>
               GetGalaxyClusters_range rest hashFactor
                 (AList.update k (members @ [galaxyId]) galaxyClusters)
           | None \<Rightarrow>
               GetGalaxyClusters_range rest hashFactor
                 (AList.update k [galaxyId] galaxyClusters)))"

definition GetGalaxyClusters ::
  "(string, RGB) gomap \<Rightarrow> goint \<Rightarrow> error + (goint, string list) gomap" where
  "GetGalaxyClusters trainingGalaxyRGB hashFactor =
     (case GetGalaxyClusters_range trainingGalaxyRGB hashFactor [] of
        Inl e \<Rightarrow> Inl e
      | Inr galaxyClusters \<Rightarrow>
          if length galaxyClusters < 1 then Inl ExitZeroClusters else Inr galaxyClusters)"

section \<open>Training label source\<close>

text \<open>
  \<^verbatim>\<open>strings.Split(row, ",")\<close> of the Go library: the fields between the commas, at
  least one field. \<^verbatim>\<open>strconv.ParseFloat\<close> is a parameter, \<open>None\<close> where it
  reports an error; the file is the list of lines the scanner yields.
\<close>

fun Split :: "string \<Rightarrow> string list" where
  "Split [] = [[]]"
| "Split (c # cs) =
     (if c = CHR '','' then [] # Split cs
      else (case Split cs of w # ws \<Rightarrow> (c # w) # ws | [] \<Rightarrow> [[c]]))"

text \<open>
  The loop of \<^verbatim>\<open>AssignClassValues\<close> runs \<open>i\<close> over \<open>[0..<len(splitrow)-1]\<close>. The
  store \<^verbatim>\<open>floatrow[i] = val\<close> comes before the test of \<^verbatim>\<open>err\<close>, so an index
  beyond the 37 cells panics whatever the parser said.
\<close>

fun AssignClassValues_loop ::
  "(string \<Rightarrow> 'f option) \<Rightarrow> string list \<Rightarrow> nat list \<Rightarrow> 'f list \<Rightarrow> error + 'f list" where
  "AssignClassValues_loop ParseFloat splitrow [] floatrow = Inr floatrow"
| "AssignClassValues_loop ParseFloat splitrow (i # is) floatrow =
     (if \<not> i < length floatrow then Inl PanicIndexOutOfRange
      else (case ParseFloat (splitrow ! i) of
              None \<Rightarrow> Inl ExitParseFloat
            | Some val \<Rightarrow> AssignClassValues_loop ParseFloat splitrow is (floatrow[i := val])))"

definition AssignClassValues ::
  "(string \<Rightarrow> 'f::zero option) \<Rightarrow> string list \<Rightarrow> 'f heap \<Rightarrow> error + ('f heap \<times> addr)" where
  "AssignClassValues ParseFloat splitrow h =
     (case AssignClassValues_loop ParseFloat splitrow [0..<length splitrow - 1] (replicate 37 0) of
        Inl e \<Rightarrow> Inl e
      | Inr floatrow \<Rightarrow> Inr (h @ [floatrow], length h))"

fun GetTrainingSolutions_scan ::
  "(string \<Rightarrow> 'f::zero option) \<Rightarrow> string list \<Rightarrow> 'f heap \<Rightarrow> (string \<rightharpoonup> addr)
     \<Rightarrow> error + ('f heap \<times> (string \<rightharpoonup> addr))" where
  "GetTrainingSolutions_scan ParseFloat [] h trainingSolutions = Inr (h, trainingSolutions)"
| "GetTrainingSolutions_scan ParseFloat (row # rest) h trainingSolutions =
     (case Split row of
        [] \<Rightarrow> Inl PanicIndexOutOfRange
      | galaxyId # fields \<Rightarrow>
          (case AssignClassValues ParseFloat fields h of
             Inl e \<Rightarrow> Inl e
           | Inr (h', values) \<Rightarrow>
               GetTrainingSolutions_scan ParseFloat rest h'
                 (trainingSolutions(galaxyId \<mapsto> values))))"

definition GetTrainingSolutions ::
  "(string \<Rightarrow> 'f::zero option) \<Rightarrow> string list \<Rightarrow> 'f heap
     \<Rightarrow> error + ('f heap \<times> (string \<rightharpoonup> addr) \<times> string list)" where
  "GetTrainingSolutions ParseFloat lines h =
     (case GetTrainingSolutions_scan ParseFloat (drop 1 lines) h Map.empty of
        Inl e \<Rightarrow> Inl e
      | Inr (h', trainingSolutions) \<Rightarrow>
          Inr (h', trainingSolutions, Split (case lines of [] \<Rightarrow> [] | header # _ \<Rightarrow> header)))"

section \<open>LabelAggregator\<close>

text \<open>
  \<^verbatim>\<open>avSolutions = trainingSolutions[galaxyList[0]]\<close> copies the reference, so the
  two loops below write into the array the table holds for the first member. A key
  that the table lacks gives the nil slice: its length is 0 and any index panics.
\<close>

fun AverageGalaxySolutions_add ::
  "'f::plus heap \<Rightarrow> addr \<Rightarrow> addr option \<Rightarrow> nat list \<Rightarrow> error + 'f heap" where
  "AverageGalaxySolutions_add h avSolutions src [] = Inr h"
| "AverageGalaxySolutions_add h avSolutions src (j # js) =
     (case src of
        None \<Rightarrow> Inl PanicIndexOutOfRange
      | Some s \<Rightarrow>
          if j < length (h ! avSolutions) \<and> j < length (h ! s)
          then AverageGalaxySolutions_add
                 (h[avSolutions := (h ! avSolutions)[j := h ! avSolutions ! j + h ! s ! j]])
                 avSolutions src js
          else Inl PanicIndexOutOfRange)"

fun AverageGalaxySolutions_sum ::
  "'f::plus heap \<Rightarrow> addr \<Rightarrow> (string \<rightharpoonup> addr) \<Rightarrow> string list \<Rightarrow> nat list \<Rightarrow> error + 'f heap" where
  "AverageGalaxySolutions_sum h avSolutions trainingSolutions [] js = Inr h"
| "AverageGalaxySolutions_sum h avSolutions trainingSolutions (g # gs) js =
     (case AverageGalaxySolutions_add h avSolutions (trainingSolutions g) js of
        Inl e \<Rightarrow> Inl e
      | Inr h' \<Rightarrow> AverageGalaxySolutions_sum h' avSolutions trainingSolutions gs js)"

fun AverageGalaxySolutions_div ::
  "'f::inverse heap \<Rightarrow> addr \<Rightarrow> 'f \<Rightarrow> nat list \<Rightarrow> 'f heap" where
  "AverageGalaxySolutions_div h avSolutions d [] = h"
| "AverageGalaxySolutions_div h avSolutions d (j # js) =
     AverageGalaxySolutions_div
       (h[avSolutions := (h ! avSolutions)[j := h ! avSolutions ! j / d]]) avSolutions d js"

definition AverageGalaxySolutions ::
  "(nat \<Rightarrow> 'f::{plus,inverse}) \<Rightarrow> string list \<Rightarrow> (string \<rightharpoonup> addr) \<Rightarrow> 'f heap
     \<Rightarrow> error + ('f heap \<times> addr)" where
  "AverageGalaxySolutions float64 galaxyList trainingSolutions h =
     (case galaxyList of
        [] \<Rightarrow> Inl PanicIndexOutOfRange
      | g0 # others \<Rightarrow>
          (case trainingSolutions g0 of
             None \<Rightarrow> Inl ExitNProbabilities
           | Some avSolutions \<Rightarrow>
               if length (h ! avSolutions) \<noteq> 37 then Inl ExitNProbabilities
               else if length galaxyList = 1 then Inr (h, avSolutions)
               else
                 (case AverageGalaxySolutions_sum h avSolutions trainingSolutions others
                         [0..<length (h ! avSolutions)] of
                    Inl e \<Rightarrow> Inl e
                  | Inr h' \<Rightarrow>
                      Inr (AverageGalaxySolutions_div h' avSolutions
                             (float64 (length galaxyList)) [0..<length (h ! avSolutions)],
                           avSolutions))))"

fun GetSolutionsForGalaxyClusters_range ::
  "(nat \<Rightarrow> 'f::{plus,inverse}) \<Rightarrow> (goint, string list) gomap \<Rightarrow> (string \<rightharpoonup> addr) \<Rightarrow> 'f heap
     \<Rightarrow> (goint \<rightharpoonup> addr) \<Rightarrow> error + ('f heap \<times> (goint \<rightharpoonup> addr))" where
  "GetSolutionsForGalaxyClusters_range float64 [] trainingSolutions h galaxyClusterSolutions =
     Inr (h, galaxyClusterSolutions)"
| "GetSolutionsForGalaxyClusters_range float64 ((clusterId, galaxyList) # rest)
       trainingSolutions h galaxyClusterSolutions =
     (case AverageGalaxySolutions float64 galaxyList trainingSolutions h of
        Inl e \<Rightarrow> Inl e
      | Inr (h', av) \<Rightarrow>
          GetSolutionsForGalaxyClusters_range float64 rest trainingSolutions h'
            (galaxyClusterSolutions(clusterId \<mapsto> av)))"

definition GetSolutionsForGalaxyClusters ::
  "(nat \<Rightarrow> 'f::{plus,inverse}) \<Rightarrow> (goint, string list) gomap \<Rightarrow> (string \<rightharpoonup> addr) \<Rightarrow> 'f heap
     \<Rightarrow> error + ('f heap \<times> (goint \<rightharpoonup> addr))" where
  "GetSolutionsForGalaxyClusters float64 galaxyClusters trainingSolutions h =
     GetSolutionsForGalaxyClusters_range float64 galaxyClusters trainingSolutions h Map.empty"

section \<open>PredictionAssigner\<close>

text \<open>
  \<^verbatim>\<open>CreateCentralPixelBenchmark\<close> reads the vectors and never writes to them, so
  here a slice is the contents of its array (the nil slice is \<open>[]\<close>).
  \<^verbatim>\<open>strconv.FormatFloat\<close> is a parameter. The result is the list of rows handed to
  the csv writer, the header first. The second \<^verbatim>\<open>range\<close> over \<^verbatim>\<open>testGalaxyRGB\<close>
  may visit the keys in another order than the first: \<open>order2\<close> is that order.
\<close>

definition BuildPredictionRow ::
  "('f \<Rightarrow> string) \<Rightarrow> string \<Rightarrow> 'f list \<Rightarrow> error + string list" where
  "BuildPredictionRow FormatFloat galaxyId pred =
     (let line = [galaxyId] @ map FormatFloat pred
      in if length line \<noteq> 38 then Inl ExitLineNot38 else Inr line)"

fun CreateCentralPixelBenchmark_assign ::
  "(goint \<rightharpoonup> 'f::zero list) \<Rightarrow> (string, RGB) gomap \<Rightarrow> goint \<Rightarrow> (string, 'f list) gomap
     \<Rightarrow> error + (string, 'f list) gomap" where
  "CreateCentralPixelBenchmark_assign galaxyClusterSolutions [] hashFactor testPredictions =
     Inr testPredictions"
| "CreateCentralPixelBenchmark_assign galaxyClusterSolutions ((galaxyId, rgb) # rest)
       hashFactor testPredictions =
     (case rgbCluster rgb hashFactor of
        Inl e \<Rightarrow> Inl e
      | Inr k \<Rightarrow>
          (case galaxyClusterSolutions k of
             Some v \<Rightarrow>
               CreateCentralPixelBenchmark_assign galaxyClusterSolutions rest hashFactor
                 (AList.update galaxyId v testPredictions)
           | None \<Rightarrow>
               CreateCentralPixelBenchmark_assign galaxyClusterSolutions rest hashFactor
                 (AList.update galaxyId (replicate 37 0) testPredictions)))"

fun CreateCentralPixelBenchmark_write ::
  "('f \<Rightarrow> string) \<Rightarrow> string list \<Rightarrow> (string, 'f list) gomap \<Rightarrow> string list list
     \<Rightarrow> error + string list list" where
  "CreateCentralPixelBenchmark_write FormatFloat [] testPredictions written = Inr written"
| "CreateCentralPixelBenchmark_write FormatFloat (galaxyId # rest) testPredictions written =
     (let pred = (case map_of testPredictions galaxyId of None \<Rightarrow> [] | Some v \<Rightarrow> v)
      in if length pred \<noteq> 37 then Inl ExitNot37Predictions
         else (case BuildPredictionRow FormatFloat galaxyId pred of
                 Inl e \<Rightarrow> Inl e
               | Inr line \<Rightarrow>
                   CreateCentralPixelBenchmark_write FormatFloat rest testPredictions
                     (written @ [line])))"

definition CreateCentralPixelBenchmark ::
  "('f::zero \<Rightarrow> string) \<Rightarrow> (goint \<rightharpoonup> 'f list) \<Rightarrow> (string, RGB) gomap \<Rightarrow> string list \<Rightarrow> goint
     \<Rightarrow> string list \<Rightarrow> error + string list list" where
  "CreateCentralPixelBenchmark FormatFloat galaxyClusterSolutions testGalaxyRGB order2
       hashFactor headerRow =
     (case CreateCentralPixelBenchmark_assign galaxyClusterSolutions testGalaxyRGB hashFactor [] of
        Inl e \<Rightarrow> Inl e
      | Inr testPredictions \<Rightarrow>
          if length testPredictions = length testGalaxyRGB
          then CreateCentralPixelBenchmark_write FormatFloat order2 testPredictions [headerRow]
          else Inl ExitLengthsMismatch)"

section \<open>ColorHasher: properties\<close>

lemma quo_defined: "b \<noteq> 0 \<Longrightarrow> quo a b = Inr (word_of_int (sint a sdiv sint b))"
  by (simp add: quo_def)

lemma key_eq:
  "key rgb H =
     (if avIntensity rgb = 0 then Inl PanicDivideByZero
      else (case rgb of (r, g, b) \<Rightarrow>
              Inr (word_of_int (sint r sdiv sint (avIntensity rgb)) * H * H
                   + word_of_int (sint g sdiv sint (avIntensity rgb)) * H
                   + word_of_int (sint b sdiv sint (avIntensity rgb)))))"
  by (cases rgb) (simp add: key_def quo_def)

lemma rgbCluster_key: "rgbCluster rgb H = key rgb H"
  by (cases rgb) (simp add: key_def rgbCluster_def quo_def mult.commute mult.left_commute)

lemma key_defined: "avIntensity rgb \<noteq> 0 \<Longrightarrow> \<exists>k. key rgb H = Inr k"
  by (cases rgb) (simp add: key_eq)

lemma avIntensity_black: "avIntensity (0, 0, 0) = 0"
  by (simp add: avIntensity_def signed_divide_int_def)

text \<open>
  C1. The key of the training path (\<open>key\<close>, in \<^verbatim>\<open>GetGalaxyClusters\<close>) and the key of
  the test path (\<open>rgbCluster\<close>, in \<^verbatim>\<open>CreateCentralPixelBenchmark\<close>) are the same
  function of the sample and the hash factor, panics included; for a sample of positive
  average intensity both are \<open>(r/av)*H*H + (g/av)*H + (b/av)\<close> with Go's truncating
  division and \<open>av = (r+g+b)/3\<close>.
\<close>

theorem key_rgbCluster_agree:
  "key rgb H = rgbCluster rgb H \<and>
   (0 <s avIntensity (r, g, b) \<longrightarrow>
      avIntensity (r, g, b) = word_of_int (sint (r + g + b) sdiv 3) \<and>
      key (r, g, b) H =
        Inr (word_of_int (sint r sdiv sint (avIntensity (r, g, b))) * H * H
             + word_of_int (sint g sdiv sint (avIntensity (r, g, b))) * H
             + word_of_int (sint b sdiv sint (avIntensity (r, g, b)))) \<and>
      rgbCluster (r, g, b) H = key (r, g, b) H)"
  by (auto simp: rgbCluster_key key_eq avIntensity_def)

theorem key_rgbCluster_agree_witness:
  "0 <s avIntensity (126, 114, 120) \<and> avIntensity (126, 114, 120) = 120 \<and>
   key (126, 114, 120) 10 = Inr 101 \<and> rgbCluster (126, 114, 120) 10 = Inr 101"
proof -
  have av: "avIntensity (126, 114, 120) = 120"
    by (simp add: avIntensity_def signed_divide_int_def)
  have pos: "0 <s avIntensity (126, 114, 120)"
    unfolding av by (simp add: word_sless_alt)
  from key_rgbCluster_agree [of "(126, 114, 120)" 10 126 114 120] pos
  have k: "key (126, 114, 120) 10 =
        Inr (word_of_int (sint (126 :: goint) sdiv sint (avIntensity (126, 114, 120))) * 10 * 10
             + word_of_int (sint (114 :: goint) sdiv sint (avIntensity (126, 114, 120))) * 10
             + word_of_int (sint (120 :: goint) sdiv sint (avIntensity (126, 114, 120))))"
    and r: "rgbCluster (126, 114, 120) 10 = key (126, 114, 120) 10"
    by blast+
  have "key (126, 114, 120) 10 = Inr 101"
    unfolding k av by (simp add: signed_divide_int_def)
  with r av pos show ?thesis by simp
qed

text \<open>
  C4. Either key computation panics with a division by zero exactly when
  \<open>avIntensity\<close> is 0; with a non-zero (so with a positive) average the three
  divisions are defined and both paths return a key. The panic is reachable: the black
  sample \<open>(0, 0, 0)\<close> has average 0, and it stops \<^verbatim>\<open>GetGalaxyClusters\<close> and
  \<^verbatim>\<open>CreateCentralPixelBenchmark\<close>.
\<close>

theorem division_by_zero_iff_avIntensity_zero:
  "(key rgb H = Inl PanicDivideByZero \<longleftrightarrow> avIntensity rgb = 0) \<and>
   (rgbCluster rgb H = Inl PanicDivideByZero \<longleftrightarrow> avIntensity rgb = 0) \<and>
   (avIntensity rgb \<noteq> 0 \<longrightarrow> (\<exists>k. key rgb H = Inr k \<and> rgbCluster rgb H = Inr k)) \<and>
   avIntensity (0, 0, 0) = 0 \<and>
   GetGalaxyClusters [(galaxyId, (0, 0, 0))] H = Inl PanicDivideByZero \<and>
   CreateCentralPixelBenchmark FormatFloat galaxyClusterSolutions [(galaxyId, (0, 0, 0))]
       [galaxyId] H headerRow = Inl PanicDivideByZero"
proof -
  have "key (0, 0, 0) H = Inl PanicDivideByZero"
    by (simp add: key_eq avIntensity_black)
  then have "GetGalaxyClusters [(galaxyId, (0, 0, 0))] H = Inl PanicDivideByZero"
    and "CreateCentralPixelBenchmark FormatFloat galaxyClusterSolutions [(galaxyId, (0, 0, 0))]
       [galaxyId] H headerRow = Inl PanicDivideByZero"
    by (simp_all add: GetGalaxyClusters_def CreateCentralPixelBenchmark_def rgbCluster_key)
  moreover have "key rgb H = Inl PanicDivideByZero \<longleftrightarrow> avIntensity rgb = 0"
    by (cases rgb) (simp add: key_eq)
  moreover have "avIntensity rgb \<noteq> 0 \<longrightarrow> (\<exists>k. key rgb H = Inr k \<and> rgbCluster rgb H = Inr k)"
    using key_defined [of rgb H] by (auto simp: rgbCluster_key)
  ultimately show ?thesis
    by (simp add: rgbCluster_key avIntensity_black)
qed

theorem division_by_zero_iff_avIntensity_zero_witness:
  "avIntensity (120, 120, 120) \<noteq> 0 \<and>
   (\<exists>k. key (120, 120, 120) 10 = Inr k \<and> rgbCluster (120, 120, 120) 10 = Inr k) \<and>
   key (0, 0, 0) 10 = Inl PanicDivideByZero"
proof -
  have av: "avIntensity (120, 120, 120) \<noteq> 0"
    by (simp add: avIntensity_def signed_divide_int_def)
  moreover from av have "\<exists>k. key (120, 120, 120) 10 = Inr k \<and> rgbCluster (120, 120, 120) 10 = Inr k"
    using division_by_zero_iff_avIntensity_zero [of "(120, 120, 120)" 10] by blast
  moreover have "key (0, 0, 0) 10 = Inl PanicDivideByZero"
    using division_by_zero_iff_avIntensity_zero [of "(0, 0, 0)" 10] by blast
  ultimately show ?thesis by blast
qed

section \<open>LabelAggregator: the loops write through the first member's slice\<close>

lemma add_effect:
  assumes "s \<noteq> a" "a < length h" "distinct js"
    "\<forall>j\<in>set js. j < length (h ! a) \<and> j < length (h ! s)"
  shows "AverageGalaxySolutions_add h a (Some s) js =
     Inr (h[a := map (\<lambda>j. if j \<in> set js then h ! a ! j + h ! s ! j else h ! a ! j)
                   [0..<length (h ! a)]])"
  using assms
proof (induction js arbitrary: h)
  case Nil
  have "map (\<lambda>j. h ! a ! j) [0..<length (h ! a)] = h ! a"
    by (rule map_nth)
  then show ?case by simp
next
  case (Cons j js)
  let ?h1 = "h[a := (h ! a)[j := h ! a ! j + h ! s ! j]]"
  have h1a: "?h1 ! a = (h ! a)[j := h ! a ! j + h ! s ! j]"
    using Cons.prems by simp
  have h1s: "?h1 ! s = h ! s"
    using Cons.prems by simp
  have IH: "AverageGalaxySolutions_add ?h1 a (Some s) js =
     Inr (?h1[a := map (\<lambda>i. if i \<in> set js then ?h1 ! a ! i + ?h1 ! s ! i else ?h1 ! a ! i)
                   [0..<length (?h1 ! a)]])"
    using Cons.prems by (intro Cons.IH) (simp_all add: h1a h1s)
  have rows: "map (\<lambda>i. if i \<in> set js then ?h1 ! a ! i + ?h1 ! s ! i else ?h1 ! a ! i)
                   [0..<length (?h1 ! a)]
     = map (\<lambda>i. if i \<in> set (j # js) then h ! a ! i + h ! s ! i else h ! a ! i)
                   [0..<length (h ! a)]"
    using Cons.prems by (auto simp: h1a h1s nth_list_update)
  show ?case
    using Cons.prems by (simp add: IH [unfolded rows])
qed

lemma add_row:
  assumes "s \<noteq> a" "a < length h" "n = length (h ! a)" "n \<le> length (h ! s)"
  shows "AverageGalaxySolutions_add h a (Some s) [0..<n] =
     Inr (h[a := map (\<lambda>j. h ! a ! j + h ! s ! j) [0..<n]])"
proof -
  have "AverageGalaxySolutions_add h a (Some s) [0..<n] =
     Inr (h[a := map (\<lambda>j. if j \<in> set [0..<n] then h ! a ! j + h ! s ! j else h ! a ! j)
                   [0..<length (h ! a)]])"
    using assms by (intro add_effect) auto
  moreover have "map (\<lambda>j. if j \<in> set [0..<n] then h ! a ! j + h ! s ! j else h ! a ! j)
                   [0..<length (h ! a)] = map (\<lambda>j. h ! a ! j + h ! s ! j) [0..<n]"
    using assms by auto
  ultimately show ?thesis by simp
qed

lemma sum_rows:
  assumes "map ts gs = map Some as" "a \<notin> set as" "a < length h" "n = length (h ! a)"
    "\<forall>s\<in>set as. n \<le> length (h ! s)"
  shows "AverageGalaxySolutions_sum h a ts gs [0..<n] =
     Inr (h[a := map (\<lambda>j. foldl (+) (h ! a ! j) (map (\<lambda>s. h ! s ! j) as)) [0..<n]])"
  using assms
proof (induction gs arbitrary: h as)
  case Nil
  then show ?case by (simp add: map_nth)
next
  case (Cons g gs)
  then obtain s as' where as: "as = s # as'" and g: "ts g = Some s"
    and rest: "map ts gs = map Some as'"
    by (cases as) auto
  let ?h1 = "h[a := map (\<lambda>j. h ! a ! j + h ! s ! j) [0..<n]]"
  have sa: "s \<noteq> a" using Cons.prems as by auto
  have step: "AverageGalaxySolutions_add h a (Some s) [0..<n] = Inr ?h1"
    using Cons.prems as sa by (intro add_row) auto
  have h1a: "?h1 ! a = map (\<lambda>j. h ! a ! j + h ! s ! j) [0..<n]"
    using Cons.prems by simp
  have other: "\<And>x. x \<noteq> a \<Longrightarrow> ?h1 ! x = h ! x" by simp
  have IH: "AverageGalaxySolutions_sum ?h1 a ts gs [0..<n] =
     Inr (?h1[a := map (\<lambda>j. foldl (+) (?h1 ! a ! j) (map (\<lambda>s. ?h1 ! s ! j) as')) [0..<n]])"
  proof (intro Cons.IH)
    show "\<forall>x\<in>set as'. n \<le> length (?h1 ! x)"
    proof
      fix x assume x: "x \<in> set as'"
      then have "x \<noteq> a" using Cons.prems as by auto
      then have "?h1 ! x = h ! x" by simp
      then show "n \<le> length (?h1 ! x)" using Cons.prems as x by simp
    qed
  qed (use Cons.prems as rest in \<open>simp_all add: h1a\<close>)
  have rows: "map (\<lambda>j. foldl (+) (?h1 ! a ! j) (map (\<lambda>s. ?h1 ! s ! j) as')) [0..<n]
      = map (\<lambda>j. foldl (+) (h ! a ! j) (map (\<lambda>s. h ! s ! j) as)) [0..<n]"
  proof (rule map_cong [OF refl])
    fix j assume "j \<in> set [0..<n]"
    then have j: "j < n" by simp
    have m: "map (\<lambda>s. ?h1 ! s ! j) as' = map (\<lambda>s. h ! s ! j) as'"
    proof (rule map_cong [OF refl])
      fix x assume "x \<in> set as'"
      then have "x \<noteq> a" using Cons.prems as by auto
      then show "?h1 ! x ! j = h ! x ! j" by simp
    qed
    have "?h1 ! a ! j = h ! a ! j + h ! s ! j"
      using j by (simp add: h1a)
    then show "foldl (+) (?h1 ! a ! j) (map (\<lambda>s. ?h1 ! s ! j) as')
       = foldl (+) (h ! a ! j) (map (\<lambda>s. h ! s ! j) as)"
      unfolding m as by simp
  qed
  show ?case
    using g by (simp add: step IH [unfolded rows])
qed

lemma div_effect:
  assumes "a < length h" "distinct js" "\<forall>j\<in>set js. j < length (h ! a)"
  shows "AverageGalaxySolutions_div h a d js =
     h[a := map (\<lambda>j. if j \<in> set js then h ! a ! j / d else h ! a ! j) [0..<length (h ! a)]]"
  using assms
proof (induction js arbitrary: h)
  case Nil
  then show ?case by (simp add: map_nth)
next
  case (Cons j js)
  let ?h1 = "h[a := (h ! a)[j := h ! a ! j / d]]"
  have h1a: "?h1 ! a = (h ! a)[j := h ! a ! j / d]"
    using Cons.prems by simp
  have IH: "AverageGalaxySolutions_div ?h1 a d js =
     ?h1[a := map (\<lambda>i. if i \<in> set js then ?h1 ! a ! i / d else ?h1 ! a ! i) [0..<length (?h1 ! a)]]"
    using Cons.prems by (intro Cons.IH) (simp_all add: h1a)
  have rows: "map (\<lambda>i. if i \<in> set js then ?h1 ! a ! i / d else ?h1 ! a ! i) [0..<length (?h1 ! a)]
     = map (\<lambda>i. if i \<in> set (j # js) then h ! a ! i / d else h ! a ! i) [0..<length (h ! a)]"
    using Cons.prems by (auto simp: h1a nth_list_update)
  show ?case
    by (simp add: IH [unfolded rows])
qed

lemma div_row:
  assumes "a < length h" "n = length (h ! a)"
  shows "AverageGalaxySolutions_div h a d [0..<n] = h[a := map (\<lambda>j. h ! a ! j / d) [0..<n]]"
proof -
  have "AverageGalaxySolutions_div h a d [0..<n] =
     h[a := map (\<lambda>j. if j \<in> set [0..<n] then h ! a ! j / d else h ! a ! j) [0..<length (h ! a)]]"
    using assms by (intro div_effect) auto
  moreover have "map (\<lambda>j. if j \<in> set [0..<n] then h ! a ! j / d else h ! a ! j) [0..<length (h ! a)]
     = map (\<lambda>j. h ! a ! j / d) [0..<n]"
    using assms by auto
  ultimately show ?thesis by simp
qed

lemma average_many:
  assumes "ts g0 = Some a" "map ts gs = map Some as" "gs \<noteq> []" "a \<notin> set as" "a < length h"
    "length (h ! a) = 37" "\<forall>s\<in>set as. length (h ! s) = 37"
  shows "AverageGalaxySolutions float64 (g0 # gs) ts h =
     Inr (h[a := map (\<lambda>j. foldl (+) (h ! a ! j) (map (\<lambda>s. h ! s ! j) as)
                             / float64 (Suc (length as))) [0..<37]], a)"
proof -
  let ?h1 = "h[a := map (\<lambda>j. foldl (+) (h ! a ! j) (map (\<lambda>s. h ! s ! j) as)) [0..<37]]"
  have len: "length gs = length as"
    using assms(2) by (metis length_map)
  have s: "AverageGalaxySolutions_sum h a ts gs [0..<37] = Inr ?h1"
    using assms by (intro sum_rows) auto
  have h1a: "?h1 ! a = map (\<lambda>j. foldl (+) (h ! a ! j) (map (\<lambda>s. h ! s ! j) as)) [0..<37]"
    using assms by simp
  have d: "AverageGalaxySolutions_div ?h1 a (float64 (Suc (length as))) [0..<37]
     = ?h1[a := map (\<lambda>j. ?h1 ! a ! j / float64 (Suc (length as))) [0..<37]]"
    using assms by (intro div_row) (simp_all add: h1a)
  have "map (\<lambda>j. ?h1 ! a ! j / float64 (Suc (length as))) [0..<37]
     = map (\<lambda>j. foldl (+) (h ! a ! j) (map (\<lambda>s. h ! s ! j) as) / float64 (Suc (length as))) [0..<37]"
    by (rule map_cong [OF refl]) (simp add: h1a del: upt_Suc)
  with d have d': "AverageGalaxySolutions_div ?h1 a (float64 (Suc (length as))) [0..<37]
     = h[a := map (\<lambda>j. foldl (+) (h ! a ! j) (map (\<lambda>s. h ! s ! j) as) / float64 (Suc (length as))) [0..<37]]"
    by simp
  have "as \<noteq> []" using len assms(3) by auto
  then show ?thesis
    using assms(1,3,6) by (simp add: AverageGalaxySolutions_def s d' len del: upt_Suc)
qed

text \<open>
  C5. Members \<open>g0 # gs\<close> with stored arrays \<open>a # as\<close> of 37 values each, the
  arrays of the later members being other arrays than the first member's (as they are
  for the distinct identifiers of a cluster, each given an array of its own by
  \<^verbatim>\<open>GetTrainingSolutions\<close>): the returned vector holds at every \<open>j < 37\<close> the sum
  \<open>v1[j] + ... + vn[j]\<close>, added from the left, divided by \<open>float64(n)\<close>. The
  \<^verbatim>\<open>float64\<close> operations are arbitrary; a single member is returned undivided, which
  is the same value where dividing by \<open>float64(1)\<close> changes nothing, as in IEEE 754.
\<close>

theorem AverageGalaxySolutions_mean:
  assumes "ts g0 = Some a" and "map ts gs = map Some as" and "a \<notin> set as"
    and "a < length h" and "length (h ! a) = 37" and "\<forall>s\<in>set as. length (h ! s) = 37"
    and "\<forall>x. x / float64 1 = x"
  shows "\<exists>h'. AverageGalaxySolutions float64 (g0 # gs) ts h = Inr (h', a) \<and>
           length (h' ! a) = 37 \<and>
           (\<forall>j<37. h' ! a ! j =
              foldl (+) (h ! a ! j) (map (\<lambda>s. h ! s ! j) as) / float64 (length (g0 # gs)))"
proof (cases gs)
  case Nil
  then have "as = []" using assms(2) by simp
  then show ?thesis
    using Nil assms(1,5,7) by (simp add: AverageGalaxySolutions_def)
next
  case (Cons g gs')
  then have ne: "gs \<noteq> []" by simp
  have len: "length gs = length as"
    using assms(2) by (metis length_map)
  let ?row = "map (\<lambda>j. foldl (+) (h ! a ! j) (map (\<lambda>s. h ! s ! j) as)
                             / float64 (Suc (length as))) [0..<37]"
  have run: "AverageGalaxySolutions float64 (g0 # gs) ts h = Inr (h[a := ?row], a)"
    using assms(1,2) ne assms(3-6) by (rule average_many)
  have row: "h[a := ?row] ! a = ?row"
    using assms(4) by simp
  have "\<forall>j<37. ?row ! j =
      foldl (+) (h ! a ! j) (map (\<lambda>s. h ! s ! j) as) / float64 (length (g0 # gs))"
    by (simp add: len del: upt_Suc)
  moreover have "length ?row = 37" by simp
  ultimately have "length (h[a := ?row] ! a) = 37 \<and>
      (\<forall>j<37. h[a := ?row] ! a ! j =
         foldl (+) (h ! a ! j) (map (\<lambda>s. h ! s ! j) as) / float64 (length (g0 # gs)))"
    unfolding row by blast
  with run show ?thesis by blast
qed

theorem AverageGalaxySolutions_mean_witness:
  "\<exists>h'. AverageGalaxySolutions real [''A'', ''B''] [''A'' \<mapsto> 0, ''B'' \<mapsto> 1]
           [1 # replicate 36 0, 0 # 1 # replicate 35 0] = Inr (h', 0) \<and>
         length (h' ! 0) = 37 \<and> h' ! 0 ! 0 = 1 / 2 \<and> h' ! 0 ! 1 = 1 / 2 \<and> h' ! 0 ! 2 = 0"
proof -
  let ?ts = "[''A'' \<mapsto> 0, ''B'' \<mapsto> (1::nat)]"
  let ?h = "[1 # replicate 36 0, 0 # 1 # replicate 35 (0::real)]"
  have "\<exists>h'. AverageGalaxySolutions real (''A'' # [''B'']) ?ts ?h = Inr (h', 0) \<and>
           length (h' ! 0) = 37 \<and>
           (\<forall>j<37. h' ! 0 ! j =
              foldl (+) (?h ! 0 ! j) (map (\<lambda>s. ?h ! s ! j) [1]) / real (length (''A'' # [''B''])))"
    by (rule AverageGalaxySolutions_mean) simp_all
  then obtain h' where run: "AverageGalaxySolutions real [''A'', ''B''] ?ts ?h = Inr (h', 0)"
    and len: "length (h' ! 0) = 37"
    and mean: "\<forall>j<37. h' ! 0 ! j = (?h ! 0 ! j + ?h ! 1 ! j) / 2"
    by auto
  have "h' ! 0 ! 0 = 1 / 2" "h' ! 0 ! 1 = 1 / 2" "h' ! 0 ! 2 = 0"
    using mean [rule_format, of 0] mean [rule_format, of 1] mean [rule_format, of 2]
    by simp_all
  with run len show ?thesis by blast
qed

text \<open>
  C8. A member list of exactly one identifier whose stored vector has 37 values: the
  returned slice is that member's slice, the heap is untouched, so the returned vector
  equals the stored one at every position, with no arithmetic done on it.
\<close>

theorem AverageGalaxySolutions_single:
  assumes "ts g = Some a" and "length (h ! a) = 37"
  shows "\<exists>h' r. AverageGalaxySolutions float64 [g] ts h = Inr (h', r) \<and>
           (\<forall>j<37. h' ! r ! j = h ! a ! j) \<and> h' ! r = h ! a \<and> h' = h"
  using assms by (simp add: AverageGalaxySolutions_def)

theorem AverageGalaxySolutions_single_witness:
  "\<exists>h' r. AverageGalaxySolutions real [''A''] [''A'' \<mapsto> 0] [1 / 3 # replicate 36 0] = Inr (h', r) \<and>
           (\<forall>j<37. h' ! r ! j = [1 / 3 # replicate 36 0] ! 0 ! j) \<and>
           h' ! r = [1 / 3 # replicate 36 0] ! 0 \<and> h' = [1 / 3 # replicate 36 0]"
  by (rule AverageGalaxySolutions_single) simp_all

lemma AverageGalaxySolutions_add_frame:
  "AverageGalaxySolutions_add h a src js = Inr h' \<Longrightarrow> x \<noteq> a \<Longrightarrow> h' ! x = h ! x"
proof (induction js arbitrary: h)
  case Nil
  then show ?case by simp
next
  case (Cons j js)
  from Cons.prems(1) obtain s where
    run: "AverageGalaxySolutions_add (h[a := (h ! a)[j := h ! a ! j + h ! s ! j]]) a src js = Inr h'"
    by (auto split: option.splits if_splits)
  from Cons.IH [OF run Cons.prems(2)] Cons.prems(2) show ?case by simp
qed

lemma AverageGalaxySolutions_sum_frame:
  "AverageGalaxySolutions_sum h a ts gs js = Inr h' \<Longrightarrow> x \<noteq> a \<Longrightarrow> h' ! x = h ! x"
proof (induction gs arbitrary: h)
  case Nil
  then show ?case by simp
next
  case (Cons g gs)
  from Cons.prems(1) obtain h1 where one: "AverageGalaxySolutions_add h a (ts g) js = Inr h1"
    and run: "AverageGalaxySolutions_sum h1 a ts gs js = Inr h'"
    by (auto split: sum.splits)
  from Cons.IH [OF run Cons.prems(2)] AverageGalaxySolutions_add_frame [OF one Cons.prems(2)]
  show ?case by simp
qed

lemma AverageGalaxySolutions_div_frame:
  "x \<noteq> a \<Longrightarrow> AverageGalaxySolutions_div h a d js ! x = h ! x"
  by (induction js arbitrary: h) simp_all

lemma AverageGalaxySolutions_frame:
  assumes "AverageGalaxySolutions float64 gl ts h = Inr (h', r)" and "x \<noteq> r"
  shows "h' ! x = h ! x"
proof -
  from assms(1) obtain g0 others
    where gl: "gl = g0 # others" and a: "ts g0 = Some r" and len: "length (h ! r) = 37"
    by (auto simp: AverageGalaxySolutions_def split: list.splits option.splits if_splits sum.splits)
  show ?thesis
  proof (cases "others = []")
    case True
    with assms(1) gl a len show ?thesis by (simp add: AverageGalaxySolutions_def)
  next
    case False
    with assms(1) gl a len obtain h1
      where s: "AverageGalaxySolutions_sum h r ts others [0..<37] = Inr h1"
        and d: "h' = AverageGalaxySolutions_div h1 r (float64 (length gl)) [0..<37]"
      by (auto simp: AverageGalaxySolutions_def split: sum.splits simp del: upt_Suc)
    from AverageGalaxySolutions_sum_frame [OF s assms(2)]
      AverageGalaxySolutions_div_frame [OF assms(2), of h1 "float64 (length gl)" "[0..<37]"]
    show ?thesis unfolding d by simp
  qed
qed

text \<open>
  C2. The claim that aggregation leaves the table of training solutions as it was
  fails on the code: for the cluster \<open>[A, B]\<close> with stored vectors
  \<open>[1, 0, 0, ...]\<close> and \<open>[0, 1, 0, ...]\<close>, after
  \<^verbatim>\<open>GetSolutionsForGalaxyClusters\<close> the array stored for \<open>A\<close> holds the mean
  \<open>[1/2, 1/2, 0, ...]\<close>, and the cluster's entry is that same array (address 0).
  Only the first member's array is written: all the others are as they were
  (\<open>AverageGalaxySolutions_frame\<close>).
\<close>

theorem GetSolutionsForGalaxyClusters_overwrites_first_member:
  "GetSolutionsForGalaxyClusters real [(111, [''A'', ''B''])] [''A'' \<mapsto> 0, ''B'' \<mapsto> 1]
       [1 # replicate 36 0, 0 # 1 # replicate 35 0]
     = Inr ([1 / 2 # 1 / 2 # replicate 35 0, 0 # 1 # replicate 35 0], [111 \<mapsto> 0])"
proof -
  let ?ts = "[''A'' \<mapsto> 0, ''B'' \<mapsto> (1::nat)]"
  let ?h = "[1 # replicate 36 0, 0 # 1 # replicate 35 (0::real)]"
  have "AverageGalaxySolutions real (''A'' # [''B'']) ?ts ?h =
     Inr (?h[0 := map (\<lambda>j. foldl (+) (?h ! 0 ! j) (map (\<lambda>s. ?h ! s ! j) [1])
                             / real (Suc (length [1::nat]))) [0..<37]], 0)"
    by (rule average_many) simp_all
  moreover have "map (\<lambda>j. foldl (+) (?h ! 0 ! j) (map (\<lambda>s. ?h ! s ! j) [1])
                             / real (Suc (length [1::nat]))) [0..<37]
      = 1 / 2 # 1 / 2 # replicate 35 0"
    by code_simp
  ultimately show ?thesis
    by (simp add: GetSolutionsForGalaxyClusters_def)
qed

section \<open>ClusterBuilder: the clusters partition the training identifiers\<close>

lemma members_update_Some:
  "map_of al k = Some ms \<Longrightarrow>
     mset (concat (map snd (AList.update k (ms @ [x]) al))) = mset (concat (map snd al)) + {#x#}"
  by (induction al) (auto split: if_splits)

lemma members_update_None:
  "map_of al k = None \<Longrightarrow>
     mset (concat (map snd (AList.update k [x] al))) = mset (concat (map snd al)) + {#x#}"
  by (induction al) (auto split: if_splits)

lemma set_update_subset: "set (AList.update k v al) \<subseteq> insert (k, v) (set al)"
  by (induction al) auto

lemma range_invariant:
  assumes "GetGalaxyClusters_range t H gc = Inr gc'"
    and "distinct (map fst gc)" and "\<forall>(k, ms)\<in>set gc. ms \<noteq> []"
  shows "distinct (map fst gc') \<and> (\<forall>(k, ms)\<in>set gc'. ms \<noteq> []) \<and>
         mset (concat (map snd gc')) = mset (concat (map snd gc)) + mset (map fst t)"
  using assms
proof (induction t arbitrary: gc)
  case Nil
  then show ?case by simp
next
  case (Cons p t)
  obtain galaxyId rgb where p: "p = (galaxyId, rgb)" by (cases p)
  from Cons.prems(1) p obtain k where k: "key rgb H = Inr k"
    by (auto split: sum.splits)
  show ?case
  proof (cases "map_of gc k")
    case None
    let ?gc1 = "AList.update k [galaxyId] gc"
    have run: "GetGalaxyClusters_range t H ?gc1 = Inr gc'"
      using Cons.prems(1) p k None by simp
    have d: "distinct (map fst ?gc1)"
      using Cons.prems(2) by (rule distinct_update)
    have ne: "\<forall>(k, ms)\<in>set ?gc1. ms \<noteq> []"
      using Cons.prems(3) set_update_subset [of k "[galaxyId]" gc] by auto
    from Cons.IH [OF run d ne] members_update_None [OF None, of galaxyId]
    show ?thesis by (simp add: p)
  next
    case (Some members)
    let ?gc1 = "AList.update k (members @ [galaxyId]) gc"
    have run: "GetGalaxyClusters_range t H ?gc1 = Inr gc'"
      using Cons.prems(1) p k Some by simp
    have d: "distinct (map fst ?gc1)"
      using Cons.prems(2) by (rule distinct_update)
    have ne: "\<forall>(k, ms)\<in>set ?gc1. ms \<noteq> []"
      using Cons.prems(3) set_update_subset [of k "members @ [galaxyId]" gc] by auto
    from Cons.IH [OF run d ne] members_update_Some [OF Some, of galaxyId]
    show ?thesis by (simp add: p)
  qed
qed

lemma range_total:
  "\<forall>(galaxyId, rgb)\<in>set t. avIntensity rgb \<noteq> 0 \<Longrightarrow> \<exists>gc'. GetGalaxyClusters_range t H gc = Inr gc'"
proof (induction t arbitrary: gc)
  case Nil
  then show ?case by simp
next
  case (Cons p t)
  obtain galaxyId rgb where p: "p = (galaxyId, rgb)" by (cases p)
  with Cons.prems have "avIntensity rgb \<noteq> 0" by simp
  then obtain k where k: "key rgb H = Inr k" using key_defined by blast
  from Cons.prems have rest: "\<forall>(galaxyId, rgb)\<in>set t. avIntensity rgb \<noteq> 0" by simp
  show ?case
    using Cons.IH [OF rest] by (simp add: p k split: option.splits)
qed

lemma range_keeps:
  assumes "GetGalaxyClusters_range t H gc = Inr gc'" and "map_of gc k = Some ms" and "x \<in> set ms"
  shows "\<exists>ms'. map_of gc' k = Some ms' \<and> x \<in> set ms'"
  using assms
proof (induction t arbitrary: gc ms)
  case Nil
  then show ?case by simp
next
  case (Cons p t)
  obtain galaxyId rgb where p: "p = (galaxyId, rgb)" by (cases p)
  from Cons.prems(1) p obtain k0 where k0: "key rgb H = Inr k0"
    by (auto split: sum.splits)
  show ?case
  proof (cases "map_of gc k0")
    case None
    have run: "GetGalaxyClusters_range t H (AList.update k0 [galaxyId] gc) = Inr gc'"
      using Cons.prems(1) p k0 None by simp
    have "k0 \<noteq> k" using None Cons.prems(2) by auto
    then have "map_of (AList.update k0 [galaxyId] gc) k = Some ms"
      using Cons.prems(2) by (simp add: update_conv')
    from Cons.IH [OF run this Cons.prems(3)] show ?thesis .
  next
    case (Some members)
    have run: "GetGalaxyClusters_range t H (AList.update k0 (members @ [galaxyId]) gc) = Inr gc'"
      using Cons.prems(1) p k0 Some by simp
    show ?thesis
    proof (cases "k0 = k")
      case True
      then have "map_of (AList.update k0 (members @ [galaxyId]) gc) k = Some (ms @ [galaxyId])"
        using Some Cons.prems(2) by (simp add: update_conv')
      moreover have "x \<in> set (ms @ [galaxyId])" using Cons.prems(3) by simp
      ultimately show ?thesis using Cons.IH [OF run] by blast
    next
      case False
      then have "map_of (AList.update k0 (members @ [galaxyId]) gc) k = Some ms"
        using Cons.prems(2) by (simp add: update_conv')
      from Cons.IH [OF run this Cons.prems(3)] show ?thesis .
    qed
  qed
qed

lemma range_by_key:
  assumes "GetGalaxyClusters_range t H gc = Inr gc'" and "(galaxyId, rgb) \<in> set t"
  shows "\<exists>k ms. key rgb H = Inr k \<and> map_of gc' k = Some ms \<and> galaxyId \<in> set ms"
  using assms
proof (induction t arbitrary: gc)
  case Nil
  then show ?case by simp
next
  case (Cons p t)
  obtain id0 rgb0 where p: "p = (id0, rgb0)" by (cases p)
  from Cons.prems(1) p obtain k0 where k0: "key rgb0 H = Inr k0"
    by (auto split: sum.splits)
  define gc1 where "gc1 = (case map_of gc k0 of
      Some members \<Rightarrow> AList.update k0 (members @ [id0]) gc
    | None \<Rightarrow> AList.update k0 [id0] gc)"
  have run: "GetGalaxyClusters_range t H gc1 = Inr gc'"
    using Cons.prems(1) p k0 by (simp add: gc1_def split: option.splits)
  show ?case
  proof (cases "(galaxyId, rgb) = p")
    case True
    have "\<exists>ms. map_of gc1 k0 = Some ms \<and> id0 \<in> set ms"
      by (simp add: gc1_def update_conv' split: option.splits)
    then obtain ms where "map_of gc1 k0 = Some ms" "id0 \<in> set ms" by blast
    from range_keeps [OF run this] k0 True p show ?thesis by auto
  next
    case False
    then have "(galaxyId, rgb) \<in> set t" using Cons.prems(2) by simp
    from Cons.IH [OF run this] show ?thesis .
  qed
qed

lemma one_cluster:
  assumes "distinct (concat (map snd al))" and "distinct (map fst al)"
    and "(k1, ms1) \<in> set al" and "(k2, ms2) \<in> set al" and "x \<in> set ms1" and "x \<in> set ms2"
  shows "k1 = k2"
  using assms by (induction al) (auto, (force+)?)

text \<open>
  C9, as stated, fails: not every non-empty training map is partitioned. With a black
  sample in the map the key computation divides by the average intensity 0 and
  \<^verbatim>\<open>GetGalaxyClusters\<close> panics; it returns no clusters.
\<close>

theorem GetGalaxyClusters_black_sample_panics:
  "GetGalaxyClusters [(''A'', (120, 120, 120)), (''B'', (0, 0, 0))] 10 = Inl PanicDivideByZero"
  by (simp add: GetGalaxyClusters_def key_eq avIntensity_def signed_divide_int_def)

text \<open>
  C9, amended. A non-empty training map (one pair per identifier) in which no sample has
  average intensity 0: \<^verbatim>\<open>GetGalaxyClusters\<close> returns a map with one entry per key
  in which every training identifier is a member of exactly one cluster, the cluster of
  its own key, once; every cluster is non-empty and holds training identifiers only.
\<close>

theorem GetGalaxyClusters_partition:
  assumes "distinct (map fst trainingGalaxyRGB)" and "trainingGalaxyRGB \<noteq> []"
    and "\<forall>(galaxyId, rgb)\<in>set trainingGalaxyRGB. avIntensity rgb \<noteq> 0"
  shows "\<exists>galaxyClusters. GetGalaxyClusters trainingGalaxyRGB hashFactor = Inr galaxyClusters \<and>
      distinct (map fst galaxyClusters) \<and>
      (\<forall>(galaxyId, rgb)\<in>set trainingGalaxyRGB.
          \<exists>!k. \<exists>ms. map_of galaxyClusters k = Some ms \<and> galaxyId \<in> set ms) \<and>
      (\<forall>(galaxyId, rgb)\<in>set trainingGalaxyRGB.
          \<exists>k ms. key rgb hashFactor = Inr k \<and> map_of galaxyClusters k = Some ms \<and>
                 galaxyId \<in> set ms \<and> distinct ms) \<and>
      (\<forall>(k, ms)\<in>set galaxyClusters. ms \<noteq> [] \<and> set ms \<subseteq> fst ` set trainingGalaxyRGB)"
proof -
  let ?t = trainingGalaxyRGB and ?H = hashFactor
  obtain gc where run: "GetGalaxyClusters_range ?t ?H [] = Inr gc"
    using range_total [OF assms(3)] by blast
  have inv: "distinct (map fst gc)" "\<forall>(k, ms)\<in>set gc. ms \<noteq> []"
    "mset (concat (map snd gc)) = mset (map fst ?t)"
    using range_invariant [OF run] by simp_all
  have "concat (map snd gc) \<noteq> []"
    using inv(3) assms(2) by (metis mset_zero_iff map_is_Nil_conv)
  then have "gc \<noteq> []" by auto
  then have res: "GetGalaxyClusters ?t ?H = Inr gc"
    by (simp add: GetGalaxyClusters_def run)
  have dc: "distinct (concat (map snd gc))"
    using inv(3) assms(1) by (metis mset_eq_imp_distinct_iff)
  have setc: "set (concat (map snd gc)) = fst ` set ?t"
    using inv(3) by (metis mset_eq_setD set_map)
  have uniq: "\<exists>!k. \<exists>ms. map_of gc k = Some ms \<and> galaxyId \<in> set ms"
    if "(galaxyId, rgb) \<in> set ?t" for galaxyId rgb
  proof -
    from range_by_key [OF run that] obtain k ms
      where k: "map_of gc k = Some ms" "galaxyId \<in> set ms" by blast
    show ?thesis
    proof (rule ex1I [of _ k])
      show "\<exists>ms. map_of gc k = Some ms \<and> galaxyId \<in> set ms" using k by blast
    next
      fix k' assume "\<exists>ms. map_of gc k' = Some ms \<and> galaxyId \<in> set ms"
      then obtain ms' where k': "map_of gc k' = Some ms'" "galaxyId \<in> set ms'" by blast
      from one_cluster [OF dc inv(1) map_of_SomeD [OF k'(1)] map_of_SomeD [OF k(1)] k'(2) k(2)]
      show "k' = k" .
    qed
  qed
  have once: "\<exists>k ms. key rgb ?H = Inr k \<and> map_of gc k = Some ms \<and> galaxyId \<in> set ms \<and> distinct ms"
    if "(galaxyId, rgb) \<in> set ?t" for galaxyId rgb
  proof -
    from range_by_key [OF run that] obtain k ms
      where k: "key rgb ?H = Inr k" "map_of gc k = Some ms" "galaxyId \<in> set ms" by blast
    have "ms \<in> set (map snd gc)" using map_of_SomeD [OF k(2)] by force
    then have "distinct ms" using dc by (auto simp: distinct_concat_iff)
    with k show ?thesis by blast
  qed
  have sub: "ms \<noteq> [] \<and> set ms \<subseteq> fst ` set ?t" if "(k, ms) \<in> set gc" for k ms
  proof -
    have "set ms \<subseteq> set (concat (map snd gc))" using that by force
    then show ?thesis using inv(2) that setc by auto
  qed
  show ?thesis
    using res inv(1) uniq once sub by blast
qed

theorem GetGalaxyClusters_partition_witness:
  "\<exists>galaxyClusters.
      GetGalaxyClusters [(''A'', (120, 120, 120)), (''B'', (126, 114, 120))] 10 = Inr galaxyClusters \<and>
      distinct (map fst galaxyClusters) \<and>
      (\<forall>(galaxyId, rgb)\<in>set ([(''A'', (120, 120, 120)), (''B'', (126, 114, 120))] :: (string, RGB) gomap).
          \<exists>!k. \<exists>ms. map_of galaxyClusters k = Some ms \<and> galaxyId \<in> set ms) \<and>
      (\<forall>(galaxyId, rgb)\<in>set ([(''A'', (120, 120, 120)), (''B'', (126, 114, 120))] :: (string, RGB) gomap).
          \<exists>k ms. key rgb 10 = Inr k \<and> map_of galaxyClusters k = Some ms \<and>
                 galaxyId \<in> set ms \<and> distinct ms) \<and>
      (\<forall>(k, ms)\<in>set galaxyClusters.
          ms \<noteq> [] \<and> set ms \<subseteq> fst ` set ([(''A'', (120, 120, 120)), (''B'', (126, 114, 120))] :: (string, RGB) gomap))"
  by (rule GetGalaxyClusters_partition) (simp_all add: avIntensity_def signed_divide_int_def)

section \<open>Training label source: what a stored vector holds\<close>

lemma AssignClassValues_loop_frame:
  assumes "AssignClassValues_loop P row is fr = Inr fr'"
  shows "length fr' = length fr \<and> (\<forall>k. k \<notin> set is \<longrightarrow> fr' ! k = fr ! k)"
  using assms
proof (induction "is" arbitrary: fr)
  case Nil
  then show ?case by simp
next
  case (Cons i "is")
  from Cons.prems obtain val where i: "i < length fr" and "P (row ! i) = Some val"
    and run: "AssignClassValues_loop P row is (fr[i := val]) = Inr fr'"
    by (auto split: if_splits option.splits)
  from Cons.IH [OF run] show ?case by auto
qed

lemma AssignClassValues_result:
  assumes "AssignClassValues P row h = Inr (h', a)"
  shows "a = length h \<and> length h' = Suc (length h) \<and> length (h' ! a) = 37 \<and>
         (\<forall>x<length h. h' ! x = h ! x) \<and>
         (\<forall>k. length row - 1 \<le> k \<longrightarrow> k < 37 \<longrightarrow> h' ! a ! k = 0)"
proof -
  from assms obtain fr
    where loop: "AssignClassValues_loop P row [0..<length row - 1] (replicate 37 0) = Inr fr"
      and res: "h' = h @ [fr]" "a = length h"
    by (auto simp: AssignClassValues_def split: sum.splits)
  from AssignClassValues_loop_frame [OF loop]
  have "length fr = 37" and "\<forall>k. length row - 1 \<le> k \<longrightarrow> k < 37 \<longrightarrow> fr ! k = 0"
    by auto
  then show ?thesis
    using res by (simp add: nth_append)
qed

lemma GetTrainingSolutions_scan_lengths:
  assumes "GetTrainingSolutions_scan P rows h ts = Inr (h', ts')"
    and "\<forall>a\<in>ran ts. a < length h \<and> length (h ! a) = 37"
  shows "\<forall>a\<in>ran ts'. a < length h' \<and> length (h' ! a) = 37"
  using assms
proof (induction rows arbitrary: h ts)
  case Nil
  then show ?case by simp
next
  case (Cons row rows)
  from Cons.prems(1) obtain galaxyId fields h1 a
    where "Split row = galaxyId # fields"
      and alloc: "AssignClassValues P fields h = Inr (h1, a)"
      and run: "GetTrainingSolutions_scan P rows h1 (ts(galaxyId \<mapsto> a)) = Inr (h', ts')"
    by (auto split: list.splits sum.splits)
  note r = AssignClassValues_result [OF alloc]
  have "\<forall>b\<in>ran (ts(galaxyId \<mapsto> a)). b < length h1 \<and> length (h1 ! b) = 37"
  proof
    fix b assume "b \<in> ran (ts(galaxyId \<mapsto> a))"
    then have "b = a \<or> b \<in> ran ts"
      by (auto simp: ran_def split: if_splits)
    then show "b < length h1 \<and> length (h1 ! b) = 37"
    proof
      assume "b = a"
      then show ?thesis using r by auto
    next
      assume "b \<in> ran ts"
      then have "b < length h" "length (h ! b) = 37" using Cons.prems(2) by auto
      then show ?thesis using r by simp
    qed
  qed
  from Cons.IH [OF run this] show ?case .
qed

lemma GetTrainingSolutions_lengths:
  assumes "GetTrainingSolutions P lines h0 = Inr (h, ts, headerRow)" and "ts g = Some a"
  shows "a < length h \<and> length (h ! a) = 37"
proof -
  from assms(1) have "GetTrainingSolutions_scan P (drop 1 lines) h0 Map.empty = Inr (h, ts)"
    by (auto simp: GetTrainingSolutions_def split: sum.splits)
  from GetTrainingSolutions_scan_lengths [OF this] assms(2) show ?thesis
    by (auto simp: ran_def)
qed

lemma AssignClassValues_loop_returns:
  assumes "\<forall>i\<in>set is. i < length fr \<and> P (row ! i) \<noteq> None"
  shows "\<exists>fr'. AssignClassValues_loop P row is fr = Inr fr'"
  using assms
proof (induction "is" arbitrary: fr)
  case Nil
  then show ?case by simp
next
  case (Cons i "is")
  from Cons.prems obtain val where i: "i < length fr" and val: "P (row ! i) = Some val"
    by auto
  from Cons.prems have "\<forall>k\<in>set is. k < length (fr[i := val]) \<and> P (row ! k) \<noteq> None"
    by simp
  from Cons.IH [OF this] i val show ?case by simp
qed

lemma AssignClassValues_returns:
  assumes "length splitrow \<le> 38" and "\<forall>i<length splitrow - 1. P (splitrow ! i) \<noteq> None"
  shows "\<exists>h' a. AssignClassValues P splitrow h = Inr (h', a)"
proof -
  have "\<forall>i\<in>set [0..<length splitrow - 1].
          i < length (replicate 37 (0::'a)) \<and> P (splitrow ! i) \<noteq> None"
    using assms by auto
  from AssignClassValues_loop_returns [OF this] show ?thesis
    by (auto simp: AssignClassValues_def)
qed

lemma AssignClassValues_loop_too_long:
  assumes "\<forall>i\<in>set is. P (row ! i) \<noteq> None" and "\<exists>i\<in>set is. \<not> i < length fr"
  shows "AssignClassValues_loop P row is fr = Inl PanicIndexOutOfRange"
  using assms
proof (induction "is" arbitrary: fr)
  case Nil
  then show ?case by simp
next
  case (Cons i "is")
  show ?case
  proof (cases "i < length fr")
    case False
    then show ?thesis by simp
  next
    case True
    from Cons.prems(1) obtain val where val: "P (row ! i) = Some val" by auto
    from True Cons.prems(2) have "\<exists>k\<in>set is. \<not> k < length (fr[i := val])" by auto
    with Cons.IH [of "fr[i := val]"] Cons.prems(1) True val show ?thesis by simp
  qed
qed

lemma AssignClassValues_too_many_fields:
  assumes "\<forall>s\<in>set splitrow. P s \<noteq> None" and "39 \<le> length splitrow"
  shows "AssignClassValues P splitrow h = Inl PanicIndexOutOfRange"
proof -
  have "\<forall>i\<in>set [0..<length splitrow - 1]. P (splitrow ! i) \<noteq> None"
    using assms(1) by simp
  moreover have "37 \<in> set [0..<length splitrow - 1]"
    using assms(2) by simp
  then have "\<exists>i\<in>set [0..<length splitrow - 1]. \<not> i < length (replicate 37 (0::'a))"
    by (intro bexI [of _ 37]) simp_all
  ultimately have "AssignClassValues_loop P splitrow [0..<length splitrow - 1] (replicate 37 0)
      = Inl PanicIndexOutOfRange"
    by (rule AssignClassValues_loop_too_long)
  then show ?thesis by (simp add: AssignClassValues_def)
qed

lemma GetTrainingSolutions_scan_own_array:
  assumes "GetTrainingSolutions_scan P rows h ts = Inr (h', ts')"
    and "\<forall>a\<in>ran ts. a < length h"
    and "\<forall>g g' a. ts g = Some a \<and> ts g' = Some a \<longrightarrow> g = g'"
  shows "\<forall>g g' a. ts' g = Some a \<and> ts' g' = Some a \<longrightarrow> g = g'"
  using assms
proof (induction rows arbitrary: h ts)
  case Nil
  then show ?case by simp
next
  case (Cons row rows)
  from Cons.prems(1) obtain galaxyId fields h1 a
    where alloc: "AssignClassValues P fields h = Inr (h1, a)"
      and run: "GetTrainingSolutions_scan P rows h1 (ts(galaxyId \<mapsto> a)) = Inr (h', ts')"
    by (auto split: list.splits sum.splits)
  from AssignClassValues_result [OF alloc]
  have a: "a = length h" and h1: "length h1 = Suc (length h)" by simp_all
  have old: "b < length h" if "ts g = Some b" for g b
    using that Cons.prems(2) by (auto simp: ran_def)
  have bound: "\<forall>b\<in>ran (ts(galaxyId \<mapsto> a)). b < length h1"
  proof
    fix b assume "b \<in> ran (ts(galaxyId \<mapsto> a))"
    then have "b = a \<or> (\<exists>g. ts g = Some b)"
      by (auto simp: ran_def split: if_splits)
    then show "b < length h1"
      using old a h1 by (auto simp: less_Suc_eq)
  qed
  have inj: "\<forall>g g' b. (ts(galaxyId \<mapsto> a)) g = Some b \<and> (ts(galaxyId \<mapsto> a)) g' = Some b
               \<longrightarrow> g = g'"
  proof (intro allI impI)
    fix g g' b
    assume eq: "(ts(galaxyId \<mapsto> a)) g = Some b \<and> (ts(galaxyId \<mapsto> a)) g' = Some b"
    show "g = g'"
    proof (cases "g = galaxyId"; cases "g' = galaxyId")
      assume "g = galaxyId" "g' = galaxyId"
      then show ?thesis by simp
    next
      assume g: "g = galaxyId" and g': "g' \<noteq> galaxyId"
      with eq have "b = a" "ts g' = Some b" by simp_all
      with old [of g' b] a show ?thesis by simp
    next
      assume g: "g \<noteq> galaxyId" and g': "g' = galaxyId"
      with eq have "b = a" "ts g = Some b" by simp_all
      with old [of g b] a show ?thesis by simp
    next
      assume "g \<noteq> galaxyId" "g' \<noteq> galaxyId"
      with eq Cons.prems(3) show ?thesis by auto
    qed
  qed
  from Cons.IH [OF run bound inj] show ?case .
qed

lemma GetTrainingSolutions_own_array:
  assumes "GetTrainingSolutions P lines h0 = Inr (h, ts, headerRow)"
    and "ts g = Some a" and "ts g' = Some a'" and "g \<noteq> g'"
  shows "a \<noteq> a'"
proof -
  from assms(1) have "GetTrainingSolutions_scan P (drop 1 lines) h0 Map.empty = Inr (h, ts)"
    by (auto simp: GetTrainingSolutions_def split: sum.splits)
  from GetTrainingSolutions_scan_own_array [OF this] assms(2-4) show ?thesis
    by auto
qed

lemma AverageGalaxySolutions_add_lengths:
  assumes "AverageGalaxySolutions_add h a src js = Inr h'"
  shows "length h' = length h \<and> (\<forall>x. length (h' ! x) = length (h ! x))"
  using assms
proof (induction js arbitrary: h)
  case Nil
  then show ?case by simp
next
  case (Cons j js)
  from Cons.prems obtain s where
    run: "AverageGalaxySolutions_add (h[a := (h ! a)[j := h ! a ! j + h ! s ! j]]) a src js = Inr h'"
    by (auto split: option.splits if_splits)
  have "length (h[a := (h ! a)[j := v]] ! x) = length (h ! x)" for v x
    by (cases "a < length h") (auto simp: nth_list_update list_update_beyond)
  with Cons.IH [OF run] show ?case by simp
qed

lemma AverageGalaxySolutions_sum_lengths:
  assumes "AverageGalaxySolutions_sum h a ts gs js = Inr h'"
  shows "length h' = length h \<and> (\<forall>x. length (h' ! x) = length (h ! x))"
  using assms
proof (induction gs arbitrary: h)
  case Nil
  then show ?case by simp
next
  case (Cons g gs)
  from Cons.prems obtain h1 where one: "AverageGalaxySolutions_add h a (ts g) js = Inr h1"
    and run: "AverageGalaxySolutions_sum h1 a ts gs js = Inr h'"
    by (auto split: sum.splits)
  from Cons.IH [OF run] AverageGalaxySolutions_add_lengths [OF one] show ?case by simp
qed

lemma AverageGalaxySolutions_div_lengths:
  "length (AverageGalaxySolutions_div h a d js) = length h \<and>
   (\<forall>x. length (AverageGalaxySolutions_div h a d js ! x) = length (h ! x))"
proof (induction js arbitrary: h)
  case Nil
  then show ?case by simp
next
  case (Cons j js)
  have "length (h[a := (h ! a)[j := v]] ! x) = length (h ! x)" for v x
    by (cases "a < length h") (auto simp: nth_list_update list_update_beyond)
  with Cons.IH [of "h[a := (h ! a)[j := h ! a ! j / d]]"] show ?case by simp
qed

lemma AverageGalaxySolutions_lengths:
  assumes "AverageGalaxySolutions float64 gl ts h = Inr (h', r)"
  shows "length h' = length h \<and> (\<forall>x. length (h' ! x) = length (h ! x))"
proof -
  from assms obtain g0 others a
    where gl: "gl = g0 # others" and a: "ts g0 = Some a" and len: "length (h ! a) = 37"
    by (auto simp: AverageGalaxySolutions_def split: list.splits option.splits if_splits)
  show ?thesis
  proof (cases "others = []")
    case True
    with assms gl a len show ?thesis by (simp add: AverageGalaxySolutions_def)
  next
    case False
    with assms gl a len obtain h1
      where s: "AverageGalaxySolutions_sum h a ts others [0..<37] = Inr h1"
        and d: "h' = AverageGalaxySolutions_div h1 a (float64 (length gl)) [0..<37]"
      by (auto simp: AverageGalaxySolutions_def split: sum.splits simp del: upt_Suc)
    from AverageGalaxySolutions_sum_lengths [OF s]
      AverageGalaxySolutions_div_lengths [of h1 a "float64 (length gl)" "[0..<37]"]
    show ?thesis unfolding d by simp
  qed
qed

lemma AverageGalaxySolutions_add_error:
  "AverageGalaxySolutions_add h a src js = Inl e \<Longrightarrow> e = PanicIndexOutOfRange"
  by (induction js arbitrary: h) (auto split: option.splits if_splits)

lemma AverageGalaxySolutions_sum_error:
  "AverageGalaxySolutions_sum h a ts gs js = Inl e \<Longrightarrow> e = PanicIndexOutOfRange"
  by (induction gs arbitrary: h) (auto split: sum.splits dest: AverageGalaxySolutions_add_error)

lemma AverageGalaxySolutions_no_exit:
  assumes "ts g = Some a" and "length (h ! a) = 37"
  shows "AverageGalaxySolutions float64 (g # gs) ts h \<noteq> Inl ExitNProbabilities"
  using assms
  by (auto simp: AverageGalaxySolutions_def split: sum.splits
        dest: AverageGalaxySolutions_sum_error)

lemma GetSolutionsForGalaxyClusters_range_no_exit:
  assumes "\<forall>(k, gl)\<in>set clusters. case gl of [] \<Rightarrow> True | g # _ \<Rightarrow> ts g \<noteq> None"
    and "\<forall>a\<in>ran ts. length (h ! a) = 37"
  shows "GetSolutionsForGalaxyClusters_range float64 clusters ts h acc \<noteq> Inl ExitNProbabilities"
  using assms
proof (induction clusters arbitrary: h acc)
  case Nil
  then show ?case by simp
next
  case (Cons c clusters)
  obtain k gl where c: "c = (k, gl)" by (cases c)
  have first: "AverageGalaxySolutions float64 gl ts h \<noteq> Inl ExitNProbabilities"
  proof (cases gl)
    case Nil
    then show ?thesis by (simp add: AverageGalaxySolutions_def)
  next
    case (Cons g gs)
    with Cons.prems(1) c obtain a where a: "ts g = Some a" by auto
    then have "length (h ! a) = 37" using Cons.prems(2) by (auto simp: ran_def)
    with a show ?thesis unfolding Cons by (rule AverageGalaxySolutions_no_exit)
  qed
  show ?case
  proof (cases "AverageGalaxySolutions float64 gl ts h")
    case (Inl e)
    with first show ?thesis by (simp add: c)
  next
    case (Inr p)
    obtain h1 r where p: "p = (h1, r)" by (cases p)
    from AverageGalaxySolutions_lengths [OF Inr [unfolded p]] Cons.prems(2)
    have "\<forall>a\<in>ran ts. length (h1 ! a) = 37" by simp
    with Cons.IH [of h1] Cons.prems(1) show ?thesis
      by (simp add: c Inr p)
  qed
qed

text \<open>
  C3. The claim that all 37 values of a row are stored fails on the code: the loop of
  \<^verbatim>\<open>AssignClassValues\<close> stops at \<open>len(splitrow)-1\<close>, one field short, so the last
  field is never parsed and the last cell keeps the 0 that \<^verbatim>\<open>make\<close> put there. For
  the row \<open>G,0,...,0,1\<close> (36 fields \<open>0\<close>, then \<open>1\<close>) the stored vector is 37 zeros.
\<close>

theorem GetTrainingSolutions_drops_last_value:
  "GetTrainingSolutions
       (\<lambda>s. if s = ''0'' then Some (0::real) else if s = ''1'' then Some 1 else None)
       [''GalaxyID,Class'',
        ''G,0,0,0,0,0,0,0,0,0,0,0,0,0,0,0,0,0,0,0,0,0,0,0,0,0,0,0,0,0,0,0,0,0,0,0,0,1'']
       [] =
     Inr ([replicate 37 0], [''G'' \<mapsto> 0], [''GalaxyID'', ''Class''])"
proof -
  let ?P = "\<lambda>s. if s = ''0'' then Some (0::real) else if s = ''1'' then Some 1 else None"
  have split: "Split ''G,0,0,0,0,0,0,0,0,0,0,0,0,0,0,0,0,0,0,0,0,0,0,0,0,0,0,0,0,0,0,0,0,0,0,0,0,1''
     = ''G'' #
        [''0'', ''0'', ''0'', ''0'', ''0'', ''0'', ''0'', ''0'', ''0'', ''0'', ''0'', ''0'',
         ''0'', ''0'', ''0'', ''0'', ''0'', ''0'', ''0'', ''0'', ''0'', ''0'', ''0'', ''0'',
         ''0'', ''0'', ''0'', ''0'', ''0'', ''0'', ''0'', ''0'', ''0'', ''0'', ''0'', ''0'',
         ''1'']"
    by code_simp
  have hdr: "Split ''GalaxyID,Class'' = [''GalaxyID'', ''Class'']"
    by code_simp
  have row: "AssignClassValues ?P
        [''0'', ''0'', ''0'', ''0'', ''0'', ''0'', ''0'', ''0'', ''0'', ''0'', ''0'', ''0'',
         ''0'', ''0'', ''0'', ''0'', ''0'', ''0'', ''0'', ''0'', ''0'', ''0'', ''0'', ''0'',
         ''0'', ''0'', ''0'', ''0'', ''0'', ''0'', ''0'', ''0'', ''0'', ''0'', ''0'', ''0'',
         ''1''] [] = Inr ([replicate 37 0], 0)"
    by code_simp
  show ?thesis
    unfolding GetTrainingSolutions_def by (simp add: split hdr row)
qed

text \<open>
  C10, as stated, fails: \<^verbatim>\<open>AssignClassValues\<close> does not return for every length of
  row. On 39 value fields the store into cell 37 panics.
\<close>

theorem AssignClassValues_39_fields_panics:
  "AssignClassValues [''0'' \<mapsto> (0::real)] (replicate 39 ''0'') [] = Inl PanicIndexOutOfRange"
  by (rule AssignClassValues_too_many_fields) simp_all

text \<open>
  C10, amended. Whatever the number of fields of the row, a slice that
  \<^verbatim>\<open>AssignClassValues\<close> returns has exactly 37 cells, and it does return on every row
  of at most 38 fields whose fields before the last all parse. So after
  \<^verbatim>\<open>GetTrainingSolutions\<close> every stored vector has length 37, and for a member list
  whose first identifier is in the table \<^verbatim>\<open>AverageGalaxySolutions\<close> never takes the
  exit \<open>NProbabilities is not 37\<close>; nor does \<^verbatim>\<open>GetSolutionsForGalaxyClusters\<close>
  when the first member of every cluster is in the table.
\<close>

theorem length_check_unreachable_after_GetTrainingSolutions:
  "(AssignClassValues ParseFloat splitrow h = Inr (h', a) \<longrightarrow> length (h' ! a) = 37) \<and>
   (length splitrow \<le> 38 \<and> (\<forall>i<length splitrow - 1. ParseFloat (splitrow ! i) \<noteq> None) \<longrightarrow>
      (\<exists>h'' b. AssignClassValues ParseFloat splitrow h = Inr (h'', b) \<and> length (h'' ! b) = 37)) \<and>
   (GetTrainingSolutions ParseFloat lines h0 = Inr (h1, trainingSolutions, headerRow) \<longrightarrow>
      (trainingSolutions g \<noteq> None \<longrightarrow>
         AverageGalaxySolutions float64 (g # gs) trainingSolutions h1 \<noteq> Inl ExitNProbabilities) \<and>
      ((\<forall>(k, gl)\<in>set galaxyClusters.
           case gl of [] \<Rightarrow> True | g # _ \<Rightarrow> trainingSolutions g \<noteq> None) \<longrightarrow>
         GetSolutionsForGalaxyClusters float64 galaxyClusters trainingSolutions h1
           \<noteq> Inl ExitNProbabilities))"
proof (intro conjI impI)
  assume "AssignClassValues ParseFloat splitrow h = Inr (h', a)"
  from AssignClassValues_result [OF this] show "length (h' ! a) = 37" by blast
next
  assume "length splitrow \<le> 38 \<and> (\<forall>i<length splitrow - 1. ParseFloat (splitrow ! i) \<noteq> None)"
  then obtain h'' b where run: "AssignClassValues ParseFloat splitrow h = Inr (h'', b)"
    using AssignClassValues_returns [of splitrow ParseFloat h] by blast
  from AssignClassValues_result [OF run] have "length (h'' ! b) = 37" by blast
  with run show "\<exists>h'' b. AssignClassValues ParseFloat splitrow h = Inr (h'', b) \<and>
      length (h'' ! b) = 37"
    by blast
next
  assume run: "GetTrainingSolutions ParseFloat lines h0 = Inr (h1, trainingSolutions, headerRow)"
    and "trainingSolutions g \<noteq> None"
  then obtain b where b: "trainingSolutions g = Some b" by auto
  from GetTrainingSolutions_lengths [OF run b] have "length (h1 ! b) = 37" by simp
  with b show "AverageGalaxySolutions float64 (g # gs) trainingSolutions h1 \<noteq> Inl ExitNProbabilities"
    by (rule AverageGalaxySolutions_no_exit)
next
  assume run: "GetTrainingSolutions ParseFloat lines h0 = Inr (h1, trainingSolutions, headerRow)"
    and first: "\<forall>(k, gl)\<in>set galaxyClusters.
           case gl of [] \<Rightarrow> True | g # _ \<Rightarrow> trainingSolutions g \<noteq> None"
  have "\<forall>b\<in>ran trainingSolutions. length (h1 ! b) = 37"
    using GetTrainingSolutions_lengths [OF run] by (auto simp: ran_def)
  with first show "GetSolutionsForGalaxyClusters float64 galaxyClusters trainingSolutions h1
           \<noteq> Inl ExitNProbabilities"
    unfolding GetSolutionsForGalaxyClusters_def
    by (rule GetSolutionsForGalaxyClusters_range_no_exit)
qed

theorem length_check_unreachable_after_GetTrainingSolutions_witness:
  "AssignClassValues [''1'' \<mapsto> (1::real)] [''1''] [] = Inr ([replicate 37 0], 0) \<and>
   length ([replicate 37 (0::real)] ! 0) = 37 \<and>
   length [''1''] \<le> (38::nat) \<and>
   GetTrainingSolutions [''1'' \<mapsto> (1::real)] [''GalaxyID,Class'', ''G,1''] []
     = Inr ([replicate 37 0], [''G'' \<mapsto> 0], [''GalaxyID'', ''Class'']) \<and>
   AverageGalaxySolutions real [''G''] [''G'' \<mapsto> 0] [replicate 37 0]
     \<noteq> Inl ExitNProbabilities \<and>
   GetSolutionsForGalaxyClusters real [(111, [''G''])] [''G'' \<mapsto> 0] [replicate 37 0]
     \<noteq> Inl ExitNProbabilities"
proof -
  let ?P = "[''1'' \<mapsto> (1::real)]"
  let ?ts = "[''G'' \<mapsto> (0::nat)]"
  let ?h = "[replicate 37 (0::real)]"
  have row: "AssignClassValues ?P [''1''] [] = Inr (?h, 0)"
    by (simp add: AssignClassValues_def)
  have short: "length [''1''] \<le> (38::nat) \<and>
      (\<forall>i<length [''1''] - 1. ?P ([''1''] ! i) \<noteq> None)"
    by simp
  have split: "Split ''G,1'' = [''G'', ''1'']" "Split ''GalaxyID,Class'' = [''GalaxyID'', ''Class'']"
    by code_simp+
  have run: "GetTrainingSolutions ?P [''GalaxyID,Class'', ''G,1''] []
     = Inr (?h, ?ts, [''GalaxyID'', ''Class''])"
    unfolding GetTrainingSolutions_def by (simp add: split row)
  note inst = length_check_unreachable_after_GetTrainingSolutions
    [of ?P "[''1'']" "[]" ?h 0 "[''GalaxyID,Class'', ''G,1'']" "[]" ?h ?ts
        "[''GalaxyID'', ''Class'']" "''G''" real "[]" "[(111, [''G''])]"]
  have "length (?h ! 0) = 37"
    using inst [THEN conjunct1] row by (rule mp)
  moreover have "\<exists>h'' b. AssignClassValues ?P [''1''] [] = Inr (h'', b) \<and> length (h'' ! b) = 37"
    using inst [THEN conjunct2, THEN conjunct1] short by (rule mp)
  moreover have "AverageGalaxySolutions real [''G''] ?ts ?h \<noteq> Inl ExitNProbabilities"
    using inst run by simp
  moreover have "GetSolutionsForGalaxyClusters real [(111, [''G''])] ?ts ?h \<noteq> Inl ExitNProbabilities"
    using inst run by simp
  ultimately show ?thesis
    using row run by simp
qed

section \<open>PredictionAssigner: one row per test identifier, fallback on a miss\<close>

lemma assign_step:
  "CreateCentralPixelBenchmark_assign gcs ((galaxyId, rgb) # rest) H tp =
     (case rgbCluster rgb H of
        Inl e \<Rightarrow> Inl e
      | Inr k \<Rightarrow> CreateCentralPixelBenchmark_assign gcs rest H
                   (AList.update galaxyId (case gcs k of Some v \<Rightarrow> v | None \<Rightarrow> replicate 37 0) tp))"
  by (simp split: sum.splits option.splits)

lemma assign_total:
  "\<forall>(galaxyId, rgb)\<in>set t. avIntensity rgb \<noteq> 0
     \<Longrightarrow> \<exists>tp'. CreateCentralPixelBenchmark_assign gcs t H tp = Inr tp'"
proof (induction t arbitrary: tp)
  case Nil
  then show ?case by simp
next
  case (Cons p t)
  obtain galaxyId rgb where p: "p = (galaxyId, rgb)" by (cases p)
  with Cons.prems have "avIntensity rgb \<noteq> 0" by simp
  then obtain k where k: "rgbCluster rgb H = Inr k"
    using key_defined [of rgb H] by (auto simp: rgbCluster_key)
  from Cons.prems have "\<forall>(galaxyId, rgb)\<in>set t. avIntensity rgb \<noteq> 0" by simp
  from Cons.IH [OF this] show ?case
    unfolding p assign_step by (simp add: k)
qed

lemma assign_keys:
  assumes "CreateCentralPixelBenchmark_assign gcs t H tp = Inr tp'"
    and "distinct (map fst t)" and "fst ` set t \<inter> fst ` set tp = {}"
  shows "map fst tp' = map fst tp @ map fst t"
  using assms
proof (induction t arbitrary: tp)
  case Nil
  then show ?case by simp
next
  case (Cons p t)
  obtain galaxyId rgb where p: "p = (galaxyId, rgb)" by (cases p)
  from Cons.prems(1) obtain k where k: "rgbCluster rgb H = Inr k"
    and run: "CreateCentralPixelBenchmark_assign gcs t H
                (AList.update galaxyId (case gcs k of Some v \<Rightarrow> v | None \<Rightarrow> replicate 37 0) tp) = Inr tp'"
    unfolding p assign_step by (auto split: sum.splits)
  have new: "galaxyId \<notin> fst ` set tp" using Cons.prems(3) p by auto
  then have keys:
    "map fst (AList.update galaxyId (case gcs k of Some v \<Rightarrow> v | None \<Rightarrow> replicate 37 0) tp)
       = map fst tp @ [galaxyId]"
    by (simp add: update_keys)
  have "fst ` set t \<inter>
        fst ` set (AList.update galaxyId (case gcs k of Some v \<Rightarrow> v | None \<Rightarrow> replicate 37 0) tp) = {}"
    using Cons.prems(2,3) p by (auto simp: dom_update)
  from Cons.IH [OF run _ this] Cons.prems(2) show ?case
    by (simp add: keys p)
qed

lemma assign_keeps:
  assumes "CreateCentralPixelBenchmark_assign gcs t H tp = Inr tp'" and "x \<notin> fst ` set t"
  shows "map_of tp' x = map_of tp x"
  using assms
proof (induction t arbitrary: tp)
  case Nil
  then show ?case by simp
next
  case (Cons p t)
  obtain galaxyId rgb where p: "p = (galaxyId, rgb)" by (cases p)
  from Cons.prems(1) obtain k where
    run: "CreateCentralPixelBenchmark_assign gcs t H
                (AList.update galaxyId (case gcs k of Some v \<Rightarrow> v | None \<Rightarrow> replicate 37 0) tp) = Inr tp'"
    unfolding p assign_step by (auto split: sum.splits)
  have "x \<noteq> galaxyId" "x \<notin> fst ` set t" using Cons.prems(2) p by auto
  with Cons.IH [OF run] show ?case by (simp add: update_conv')
qed

lemma assign_lookup:
  assumes "CreateCentralPixelBenchmark_assign gcs t H tp = Inr tp'"
    and "distinct (map fst t)" and "(galaxyId, rgb) \<in> set t"
  shows "\<exists>k. rgbCluster rgb H = Inr k \<and>
             map_of tp' galaxyId = Some (case gcs k of Some v \<Rightarrow> v | None \<Rightarrow> replicate 37 0)"
  using assms
proof (induction t arbitrary: tp)
  case Nil
  then show ?case by simp
next
  case (Cons p t)
  obtain id0 rgb0 where p: "p = (id0, rgb0)" by (cases p)
  from Cons.prems(1) obtain k0 where k0: "rgbCluster rgb0 H = Inr k0"
    and run: "CreateCentralPixelBenchmark_assign gcs t H
                (AList.update id0 (case gcs k0 of Some v \<Rightarrow> v | None \<Rightarrow> replicate 37 0) tp) = Inr tp'"
    unfolding p assign_step by (auto split: sum.splits)
  show ?case
  proof (cases "(galaxyId, rgb) = p")
    case True
    have "id0 \<notin> fst ` set t" using Cons.prems(2) p by auto
    from assign_keeps [OF run this]
    have "map_of tp' id0 = Some (case gcs k0 of Some v \<Rightarrow> v | None \<Rightarrow> replicate 37 0)"
      by (simp add: update_conv')
    with True p k0 show ?thesis by auto
  next
    case False
    then have "(galaxyId, rgb) \<in> set t" using Cons.prems(3) by simp
    from Cons.IH [OF run _ this] Cons.prems(2) show ?thesis by simp
  qed
qed

lemma write_eq:
  "CreateCentralPixelBenchmark_write fmt ks tp written =
     (if \<forall>galaxyId\<in>set ks. length (case map_of tp galaxyId of None \<Rightarrow> [] | Some v \<Rightarrow> v) = 37
      then Inr (written @
             map (\<lambda>galaxyId. galaxyId #
                    map fmt (case map_of tp galaxyId of None \<Rightarrow> [] | Some v \<Rightarrow> v)) ks)
      else Inl ExitNot37Predictions)"
  by (induction ks arbitrary: written)
     (auto simp: BuildPredictionRow_def Let_def)

lemma CreateCentralPixelBenchmark_shape:
  assumes "CreateCentralPixelBenchmark fmt gcs t order2 H headerRow = Inr out"
  shows "\<exists>tp. CreateCentralPixelBenchmark_assign gcs t H [] = Inr tp \<and>
           out = headerRow # map (\<lambda>galaxyId. galaxyId #
                   map fmt (case map_of tp galaxyId of None \<Rightarrow> [] | Some v \<Rightarrow> v)) order2 \<and>
           (\<forall>galaxyId\<in>set order2.
               length (case map_of tp galaxyId of None \<Rightarrow> [] | Some v \<Rightarrow> v) = 37)"
proof -
  from assms obtain tp where a: "CreateCentralPixelBenchmark_assign gcs t H [] = Inr tp"
    and w: "CreateCentralPixelBenchmark_write fmt order2 tp [headerRow] = Inr out"
    by (auto simp: CreateCentralPixelBenchmark_def split: sum.splits if_splits)
  from w have "(\<forall>galaxyId\<in>set order2.
       length (case map_of tp galaxyId of None \<Rightarrow> [] | Some v \<Rightarrow> v) = 37) \<and>
     out = headerRow # map (\<lambda>galaxyId. galaxyId #
             map fmt (case map_of tp galaxyId of None \<Rightarrow> [] | Some v \<Rightarrow> v)) order2"
    unfolding write_eq by (simp split: if_splits)
  with a show ?thesis by blast
qed

lemma CreateCentralPixelBenchmark_runs:
  assumes "distinct (map fst t)" and "mset order2 = mset (map fst t)"
    and "\<forall>(galaxyId, rgb)\<in>set t. avIntensity rgb \<noteq> 0" and "\<forall>v\<in>ran gcs. length v = 37"
  shows "\<exists>out. CreateCentralPixelBenchmark fmt gcs t order2 H headerRow = Inr out"
proof -
  obtain tp where a: "CreateCentralPixelBenchmark_assign gcs t H [] = Inr tp"
    using assign_total [OF assms(3)] by blast
  from assign_keys [OF a assms(1)] have "map fst tp = map fst t" by simp
  then have len: "length tp = length t" by (metis length_map)
  have "length (case map_of tp galaxyId of None \<Rightarrow> [] | Some v \<Rightarrow> v) = 37"
    if "galaxyId \<in> set order2" for galaxyId
  proof -
    from that assms(2) have "galaxyId \<in> set (map fst t)" by (metis mset_eq_setD)
    then obtain rgb where "(galaxyId, rgb) \<in> set t" by auto
    from assign_lookup [OF a assms(1) this] obtain k
      where "map_of tp galaxyId = Some (case gcs k of Some v \<Rightarrow> v | None \<Rightarrow> replicate 37 0)"
      by blast
    then show ?thesis
      using assms(4) by (auto simp: ran_def split: option.splits)
  qed
  then show ?thesis
    by (simp add: CreateCentralPixelBenchmark_def a len write_eq)
qed

text \<open>
  C6. Test identifiers one per pair, no sample of average intensity 0, and every
  aggregated vector of length 37 (otherwise the run stops for those other reasons): the
  run completes, and a test identifier whose key is absent from the cluster solutions is
  assigned 37 zeros and gets the row of 37 formatted zeros; one whose key is present is
  assigned that cluster's vector and gets its row.
\<close>

theorem CreateCentralPixelBenchmark_fallback_on_miss:
  assumes "distinct (map fst testGalaxyRGB)" and "mset order2 = mset (map fst testGalaxyRGB)"
    and "\<forall>(galaxyId, rgb)\<in>set testGalaxyRGB. avIntensity rgb \<noteq> 0"
    and "\<forall>v\<in>ran galaxyClusterSolutions. length v = 37"
  shows "\<exists>testPredictions out.
      CreateCentralPixelBenchmark_assign galaxyClusterSolutions testGalaxyRGB hashFactor []
        = Inr testPredictions \<and>
      CreateCentralPixelBenchmark FormatFloat galaxyClusterSolutions testGalaxyRGB order2
        hashFactor headerRow = Inr out \<and>
      (\<forall>(galaxyId, rgb)\<in>set testGalaxyRGB. \<exists>k. rgbCluster rgb hashFactor = Inr k \<and>
         (case galaxyClusterSolutions k of
            None \<Rightarrow> map_of testPredictions galaxyId = Some (replicate 37 0) \<and>
                    galaxyId # replicate 37 (FormatFloat 0) \<in> set out
          | Some v \<Rightarrow> map_of testPredictions galaxyId = Some v \<and>
                    galaxyId # map FormatFloat v \<in> set out))"
proof -
  let ?t = testGalaxyRGB and ?gcs = galaxyClusterSolutions
  obtain out where run: "CreateCentralPixelBenchmark FormatFloat ?gcs ?t order2
        hashFactor headerRow = Inr out"
    using CreateCentralPixelBenchmark_runs [OF assms] by blast
  from CreateCentralPixelBenchmark_shape [OF run] obtain tp
    where a: "CreateCentralPixelBenchmark_assign ?gcs ?t hashFactor [] = Inr tp"
      and out: "out = headerRow # map (\<lambda>galaxyId. galaxyId #
                   map FormatFloat (case map_of tp galaxyId of None \<Rightarrow> [] | Some v \<Rightarrow> v)) order2"
    by blast
  have each: "\<exists>k. rgbCluster rgb hashFactor = Inr k \<and>
         (case ?gcs k of
            None \<Rightarrow> map_of tp galaxyId = Some (replicate 37 0) \<and>
                    galaxyId # replicate 37 (FormatFloat 0) \<in> set out
          | Some v \<Rightarrow> map_of tp galaxyId = Some v \<and> galaxyId # map FormatFloat v \<in> set out)"
    if mem: "(galaxyId, rgb) \<in> set ?t" for galaxyId rgb
  proof -
    from assign_lookup [OF a assms(1) mem] obtain k
      where k: "rgbCluster rgb hashFactor = Inr k"
        and tp: "map_of tp galaxyId = Some (case ?gcs k of Some v \<Rightarrow> v | None \<Rightarrow> replicate 37 0)"
      by blast
    have "galaxyId \<in> set (map fst ?t)" using mem by force
    then have "galaxyId \<in> set order2" using assms(2) by (metis mset_eq_setD)
    then have "galaxyId # map FormatFloat
        (case map_of tp galaxyId of None \<Rightarrow> [] | Some v \<Rightarrow> v) \<in> set out"
      unfolding out by simp
    with k tp show ?thesis
      by (auto split: option.splits)
  qed
  from a run each show ?thesis by blast
qed

theorem CreateCentralPixelBenchmark_fallback_on_miss_witness:
  "\<exists>testPredictions out.
      CreateCentralPixelBenchmark_assign [(111::goint) \<mapsto> 1 / 2 # 1 / 2 # replicate 35 (0::real)]
        ([(''T1'', (120, 120, 120)), (''T2'', (240, 0, 120))] :: (string, RGB) gomap) 10 []
        = Inr testPredictions \<and>
      CreateCentralPixelBenchmark (\<lambda>x::real. if x = 0 then ''0'' else ''0.5'')
        [(111::goint) \<mapsto> 1 / 2 # 1 / 2 # replicate 35 (0::real)]
        ([(''T1'', (120, 120, 120)), (''T2'', (240, 0, 120))] :: (string, RGB) gomap)
        [''T2'', ''T1''] 10 [''GalaxyID'', ''Class''] = Inr out \<and>
      (\<forall>(galaxyId, rgb)\<in>set ([(''T1'', (120, 120, 120)), (''T2'', (240, 0, 120))] :: (string, RGB) gomap).
         \<exists>k. rgbCluster rgb 10 = Inr k \<and>
         (case [(111::goint) \<mapsto> 1 / 2 # 1 / 2 # replicate 35 (0::real)] k of
            None \<Rightarrow> map_of testPredictions galaxyId = Some (replicate 37 0) \<and>
                    galaxyId # replicate 37 ((\<lambda>x::real. if x = 0 then ''0'' else ''0.5'') 0) \<in> set out
          | Some v \<Rightarrow> map_of testPredictions galaxyId = Some v \<and>
                    galaxyId # map (\<lambda>x::real. if x = 0 then ''0'' else ''0.5'') v \<in> set out))"
proof -
  let ?t = "([(''T1'', (120, 120, 120)), (''T2'', (240, 0, 120))] :: (string, RGB) gomap)"
  let ?gcs = "[(111::goint) \<mapsto> 1 / 2 # 1 / 2 # replicate 35 (0::real)]"
  have d: "distinct (map fst ?t)" and p: "mset [''T2'', ''T1''] = mset (map fst ?t)"
    by simp_all
  have av: "\<forall>(galaxyId, rgb)\<in>set ?t. avIntensity rgb \<noteq> 0"
    by (simp add: avIntensity_def signed_divide_int_def)
  have len: "\<forall>v\<in>ran ?gcs. length v = 37"
    by simp
  show ?thesis
    by (rule CreateCentralPixelBenchmark_fallback_on_miss
          [OF d p av len, where FormatFloat = "(\<lambda>x::real. if x = 0 then ''0'' else ''0.5'')"
             and hashFactor = 10 and headerRow = "[''GalaxyID'', ''Class'']"])
qed

text \<open>
  C7. Test identifiers one per pair, the second \<^verbatim>\<open>range\<close> visiting them in any order:
  a run that completes has written the header and then exactly one row per test
  identifier, none left out and none twice, each row the identifier followed by 37
  formatted values, 38 fields. The run does complete when no test sample has average
  intensity 0 and every aggregated vector has length 37.
\<close>

theorem CreateCentralPixelBenchmark_one_row_per_identifier:
  assumes "distinct (map fst testGalaxyRGB)" and "mset order2 = mset (map fst testGalaxyRGB)"
  shows "(CreateCentralPixelBenchmark FormatFloat galaxyClusterSolutions testGalaxyRGB order2
            hashFactor headerRow = Inr out \<longrightarrow>
          (\<exists>rows. out = headerRow # rows \<and> length rows = length testGalaxyRGB \<and>
             map hd rows = order2 \<and> distinct (map hd rows) \<and>
             set (map hd rows) = fst ` set testGalaxyRGB \<and>
             (\<forall>row\<in>set rows. length row = 38 \<and>
                (\<exists>galaxyId v. row = galaxyId # map FormatFloat v \<and> length v = 37)))) \<and>
         ((\<forall>(galaxyId, rgb)\<in>set testGalaxyRGB. avIntensity rgb \<noteq> 0) \<and>
          (\<forall>v\<in>ran galaxyClusterSolutions. length v = 37) \<longrightarrow>
          (\<exists>written. CreateCentralPixelBenchmark FormatFloat galaxyClusterSolutions
                        testGalaxyRGB order2 hashFactor headerRow = Inr written))"
proof (intro conjI impI)
  assume run: "CreateCentralPixelBenchmark FormatFloat galaxyClusterSolutions testGalaxyRGB order2
            hashFactor headerRow = Inr out"
  from CreateCentralPixelBenchmark_shape [OF run] obtain tp
    where out: "out = headerRow # map (\<lambda>galaxyId. galaxyId #
                   map FormatFloat (case map_of tp galaxyId of None \<Rightarrow> [] | Some v \<Rightarrow> v)) order2"
      and len: "\<forall>galaxyId\<in>set order2.
                  length (case map_of tp galaxyId of None \<Rightarrow> [] | Some v \<Rightarrow> v) = 37"
    by blast
  let ?rows = "map (\<lambda>galaxyId. galaxyId #
                   map FormatFloat (case map_of tp galaxyId of None \<Rightarrow> [] | Some v \<Rightarrow> v)) order2"
  have ids: "map hd ?rows = order2"
    by (simp add: comp_def)
  have "length order2 = length testGalaxyRGB"
    using assms(2) by (metis mset_eq_length length_map)
  moreover have "distinct order2"
    using assms by (metis mset_eq_imp_distinct_iff)
  moreover have "set order2 = fst ` set testGalaxyRGB"
    using assms(2) by (metis mset_eq_setD set_map)
  moreover have "\<forall>row\<in>set ?rows. length row = 38 \<and>
       (\<exists>galaxyId v. row = galaxyId # map FormatFloat v \<and> length v = 37)"
    using len by auto
  ultimately show "\<exists>rows. out = headerRow # rows \<and> length rows = length testGalaxyRGB \<and>
             map hd rows = order2 \<and> distinct (map hd rows) \<and>
             set (map hd rows) = fst ` set testGalaxyRGB \<and>
             (\<forall>row\<in>set rows. length row = 38 \<and>
                (\<exists>galaxyId v. row = galaxyId # map FormatFloat v \<and> length v = 37))"
    unfolding out using ids by (intro exI [of _ ?rows]) simp
next
  assume "(\<forall>(galaxyId, rgb)\<in>set testGalaxyRGB. avIntensity rgb \<noteq> 0) \<and>
          (\<forall>v\<in>ran galaxyClusterSolutions. length v = 37)"
  with assms show "\<exists>written. CreateCentralPixelBenchmark FormatFloat galaxyClusterSolutions
                        testGalaxyRGB order2 hashFactor headerRow = Inr written"
    by (intro CreateCentralPixelBenchmark_runs) auto
qed

theorem CreateCentralPixelBenchmark_one_row_per_identifier_witness:
  "\<exists>rows.
      CreateCentralPixelBenchmark (\<lambda>x::real. if x = 0 then ''0'' else ''0.5'')
        [(111::goint) \<mapsto> 1 / 2 # 1 / 2 # replicate 35 (0::real)]
        ([(''T1'', (120, 120, 120)), (''T2'', (240, 0, 120))] :: (string, RGB) gomap)
        [''T2'', ''T1''] 10 [''GalaxyID'', ''Class''] = Inr ([''GalaxyID'', ''Class''] # rows) \<and>
      length rows = 2 \<and> map hd rows = [''T2'', ''T1''] \<and> distinct (map hd rows) \<and>
      set (map hd rows) = {''T1'', ''T2''} \<and>
      (\<forall>row\<in>set rows. length row = 38 \<and>
         (\<exists>galaxyId v. row = galaxyId # map (\<lambda>x::real. if x = 0 then ''0'' else ''0.5'') v \<and>
                         length v = 37))"
proof -
  let ?t = "([(''T1'', (120, 120, 120)), (''T2'', (240, 0, 120))] :: (string, RGB) gomap)"
  let ?gcs = "[(111::goint) \<mapsto> 1 / 2 # 1 / 2 # replicate 35 (0::real)]"
  let ?fmt = "(\<lambda>x::real. if x = 0 then ''0'' else ''0.5'')"
  have d: "distinct (map fst ?t)" and p: "mset [''T2'', ''T1''] = mset (map fst ?t)"
    by simp_all
  have ok: "(\<forall>(galaxyId, rgb)\<in>set ?t. avIntensity rgb \<noteq> 0) \<and>
            (\<forall>v\<in>ran ?gcs. length v = 37)"
    by (simp add: avIntensity_def signed_divide_int_def)
  note inst = CreateCentralPixelBenchmark_one_row_per_identifier
    [OF d p, where FormatFloat = ?fmt and hashFactor = 10 and headerRow = "[''GalaxyID'', ''Class'']"
       and galaxyClusterSolutions = ?gcs]
  from inst [THEN conjunct2, THEN mp, OF ok]
  obtain written where run:
    "CreateCentralPixelBenchmark ?fmt ?gcs ?t [''T2'', ''T1''] 10 [''GalaxyID'', ''Class'']
       = Inr written"
    by (elim exE)
  from inst [of written, THEN conjunct1, THEN mp, OF run]
  obtain rows where r: "written = [''GalaxyID'', ''Class''] # rows" "length rows = length ?t"
    "map hd rows = [''T2'', ''T1'']" "distinct (map hd rows)" "set (map hd rows) = fst ` set ?t"
    "\<forall>row\<in>set rows. length row = 38 \<and>
         (\<exists>galaxyId v. row = galaxyId # map ?fmt v \<and> length v = 37)"
    by (elim exE conjE)
  have c1:
    "CreateCentralPixelBenchmark ?fmt ?gcs ?t [''T2'', ''T1''] 10 [''GalaxyID'', ''Class'']
       = Inr ([''GalaxyID'', ''Class''] # rows)"
    using run r(1) by simp
  have c2: "length rows = 2" using r(2) by simp
  have c3: "set (map hd rows) = {''T1'', ''T2''}" using r(5) by simp
  show ?thesis
    by (intro exI [of _ rows] conjI) (fact c1 c2 c3 r)+
qed

end
